theory Spec2Isabelle
  imports Complex_Main
begin

section \<open>Values shared by the whole development\<close>

text \<open>
  The development embeds \<^verbatim>\<open>engine/results.py\<close>: the ADAS part of \<^verbatim>\<open>Results.plot\<close>
  (lines 262 to 477), \<^verbatim>\<open>Boxes\<close> and \<^verbatim>\<open>Probs.top5\<close>.

  Tensor entries are floats in the source; they are modelled by exact rationals.
  Landmark rectangles and pixel points are tuples of Python integers (they are handed to
  \<^verbatim>\<open>cv2.line\<close> as they are, which takes integer points only), modelled by \<open>int\<close>.
  \<^verbatim>\<open>int(x)\<close> of a float truncates towards zero.
\<close>

datatype error = KeyError | AssertionError

definition py_int :: "rat \<Rightarrow> int" where
  "py_int q = (if 0 \<le> q then \<lfloor>q\<rfloor> else \<lceil>q\<rceil>)"

type_synonym rect = "int \<times> int \<times> int \<times> int"
type_synonym point = "int \<times> int"

fun idx0 :: "rect \<Rightarrow> int" where "idx0 (a, b, c, d) = a"
fun idx1 :: "rect \<Rightarrow> int" where "idx1 (a, b, c, d) = b"
fun idx2 :: "rect \<Rightarrow> int" where "idx2 (a, b, c, d) = c"
fun idx3 :: "rect \<Rightarrow> int" where "idx3 (a, b, c, d) = d"

text \<open>The quadruple \<^verbatim>\<open>(9999,9999,9999,9999)\<close> every \<^verbatim>\<open>Final_*_pt\<close> starts from.\<close>

definition ABSENT :: rect where
  "ABSENT = (9999, 9999, 9999, 9999)"

section \<open>Boxes\<close>

text \<open>
  A buffer handed to \<^verbatim>\<open>Boxes\<close> is one-dimensional (\<open>Arr1\<close>, one row) or two-dimensional
  (\<open>Arr2 c rs\<close>: the rows \<open>rs\<close>, each of width \<open>c\<close>; the width is kept beside the rows
  because a buffer of shape \<open>(0, c)\<close> has a width and no row), as the docstring of the
  class has it. Buffers of no or of more than two dimensions are not modelled.
\<close>

datatype ndarray = Arr1 "rat list" | Arr2 nat "rat list list"

fun ndim :: "ndarray \<Rightarrow> nat" where
  "ndim (Arr1 xs) = 1"
| "ndim (Arr2 c rs) = 2"

text \<open>\<^verbatim>\<open>boxes.shape[-1]\<close>\<close>

fun shape_last :: "ndarray \<Rightarrow> nat" where
  "shape_last (Arr1 xs) = length xs"
| "shape_last (Arr2 c rs) = c"

text \<open>\<^verbatim>\<open>boxes[None, :]\<close> of a one-dimensional buffer\<close>

fun add_axis :: "ndarray \<Rightarrow> ndarray" where
  "add_axis (Arr1 xs) = Arr2 (length xs) [xs]"
| "add_axis (Arr2 c rs) = Arr2 c rs"

fun rows_of :: "ndarray \<Rightarrow> rat list list" where
  "rows_of (Arr1 xs) = [xs]"
| "rows_of (Arr2 c rs) = rs"

text \<open>Every row of a two-dimensional buffer has the buffer's width.\<close>

fun wf_ndarray :: "ndarray \<Rightarrow> bool" where
  "wf_ndarray (Arr1 xs) = True"
| "wf_ndarray (Arr2 c rs) = list_all (\<lambda>r. length r = c) rs"

record Boxes =
  data :: ndarray
  orig_shape :: "int \<times> int"
  is_track :: bool

text \<open>
  \<^verbatim>\<open>Boxes.__init__\<close>: a one-dimensional buffer gets a leading axis, the width must be 6
  or 7 (the \<^verbatim>\<open>assert\<close>), and \<^verbatim>\<open>is_track\<close> records a width of 7.
\<close>

definition Boxes_init :: "ndarray \<Rightarrow> int \<times> int \<Rightarrow> error + Boxes" where
  "Boxes_init boxes shp =
     (let boxes1 = (if ndim boxes = 1 then add_axis boxes else boxes);
          n = shape_last boxes1
      in if n = 6 \<or> n = 7
         then Inr \<lparr>data = boxes1, orig_shape = shp, is_track = (n = 7)\<rparr>
         else Inl AssertionError)"

text \<open>
  The properties. A negative column index \<^verbatim>\<open>-k\<close> of a row of width \<open>n\<close> is the column
  \<open>n - k\<close>.
\<close>

definition col_neg :: "nat \<Rightarrow> rat list \<Rightarrow> rat" where
  "col_neg k r = r ! (length r - k)"

definition Boxes_xyxy :: "Boxes \<Rightarrow> rat list list" where
  "Boxes_xyxy b = map (take 4) (rows_of (data b))"

definition Boxes_conf :: "Boxes \<Rightarrow> rat list" where
  "Boxes_conf b = map (col_neg 2) (rows_of (data b))"

definition Boxes_cls :: "Boxes \<Rightarrow> rat list" where
  "Boxes_cls b = map (col_neg 1) (rows_of (data b))"

definition Boxes_id :: "Boxes \<Rightarrow> rat list option" where
  "Boxes_id b = (if is_track b then Some (map (col_neg 3) (rows_of (data b))) else None)"

text \<open>
  \<^verbatim>\<open>arr[..., [0, 2]] /= w; arr[..., [1, 3]] /= h\<close> on one row of width 4.
\<close>

definition div_wh :: "int \<times> int \<Rightarrow> rat list \<Rightarrow> rat list" where
  "div_wh shp r =
     (case shp of (h, w) \<Rightarrow>
        [r ! 0 / of_int w, r ! 1 / of_int h, r ! 2 / of_int w, r ! 3 / of_int h])"

definition Boxes_xyxyn :: "Boxes \<Rightarrow> rat list list" where
  "Boxes_xyxyn b = map (div_wh (orig_shape b)) (Boxes_xyxy b)"

text \<open>
  \<^verbatim>\<open>ops.xyxy2xywh\<close> is not part of the file; \<open>xywh\<close> and \<open>xywhn\<close> take it as the
  parameter \<open>xyxy2xywh\<close>, a map from the rows of \<open>xyxy\<close> to rows of width 4.
\<close>

definition Boxes_xywh :: "(rat list list \<Rightarrow> rat list list) \<Rightarrow> Boxes \<Rightarrow> rat list list" where
  "Boxes_xywh xyxy2xywh b = xyxy2xywh (Boxes_xyxy b)"

definition Boxes_xywhn :: "(rat list list \<Rightarrow> rat list list) \<Rightarrow> Boxes \<Rightarrow> rat list list" where
  "Boxes_xywhn xyxy2xywh b = map (div_wh (orig_shape b)) (xyxy2xywh (Boxes_xyxy b))"

text \<open>Scaling a normalized row back: x by the width, y by the height.\<close>

definition mul_wh :: "int \<times> int \<Rightarrow> rat list \<Rightarrow> rat list" where
  "mul_wh shp r =
     (case shp of (h, w) \<Rightarrow>
        [r ! 0 * of_int w, r ! 1 * of_int h, r ! 2 * of_int w, r ! 3 * of_int h])"

section \<open>Probs\<close>

text \<open>
  \<^verbatim>\<open>argsort\<close> is the library's: the indices of a vector in ascending order of their
  entries. It is modelled by insertion of the indices by key, which keeps equal entries
  in index order; \<^verbatim>\<open>[:5]\<close> keeps at most five.
\<close>

definition argsort :: "rat list \<Rightarrow> nat list" where
  "argsort xs = sort_key (\<lambda>i. xs ! i) [0..<length xs]"

definition top5 :: "rat list \<Rightarrow> nat list" where
  "top5 xs = take 5 (argsort (map uminus xs))"

section \<open>Results.plot: the landmark pass\<close>

text \<open>
  The \<^verbatim>\<open>Annotator\<close> and \<^verbatim>\<open>cv2\<close> are not part of the file. What \<^verbatim>\<open>plot\<close> asks of
  them is recorded as a list of calls, in the order they are made. A call of
  \<^verbatim>\<open>annotator.box_label\<close> is recorded with what it returned: seven rectangles and the
  frame \<^verbatim>\<open>im\<close>, of which \<^verbatim>\<open>plot\<close> reads \<^verbatim>\<open>im.shape[0]\<close> and \<^verbatim>\<open>im.shape[1]\<close> only.
  The renderer is taken to return an image array, never \<^verbatim>\<open>None\<close>, and quadruples of
  integers; the calls are taken to return without an exception.
\<close>

record label_out =
  VLA_pt :: rect
  DCA_pt :: rect
  VPA_pt :: rect
  DUA_d_pt :: rect
  DUA_m_pt :: rect
  DUA_u_pt :: rect
  DUA_ut_pt :: rect
  im_shape :: "int \<times> int"

text \<open>
  The label string \<^verbatim>\<open>f'{name} {conf:.2f}'\<close> with \<^verbatim>\<open>name = ('' if id is None else f'id:{id} ') + names[c]\<close>
  is kept by its parts: the track id, the class name and the confidence (\<open>None\<close> when
  the label is the name alone).
\<close>

datatype label = Label "int option" string "rat option"

type_synonym keypair = "point option \<times> point option"
type_synonym keypoints = "keypair \<times> keypair \<times> keypair \<times> keypair \<times> keypair"

text \<open>
  \<^item> \<open>Box_label xyxy label c out\<close>: \<^verbatim>\<open>annotator.box_label(d.xyxy.squeeze(), label, color=colors(c, True))\<close> returned \<open>out\<close>;
  \<^item> \<open>Box_FCWS_label xyxy kps row label c\<close>: \<^verbatim>\<open>annotator.box_FCWS_label(d.xyxy.squeeze(), ADAS_Key_Points, HISTORY_VLA_pt[1], label, color=colors(c, True))\<close>;
  \<^item> \<open>Cv_line p q colour thickness\<close>: \<^verbatim>\<open>cv2.line(im, p, q, colour, thickness)\<close>;
  \<^item> \<open>Cv_putText s p\<close>: \<^verbatim>\<open>cv2.putText(im, s, p, cv2.FONT_HERSHEY_PLAIN, 2.5, (0, 0, 255), 4, cv2.LINE_AA)\<close>.
\<close>

datatype event =
    Box_label "rat list" "label option" int label_out
  | Box_FCWS_label "rat list" keypoints int "label option" int
  | Cv_line point point "int list" int
  | Cv_putText string point

text \<open>
  The label renderer is a parameter: any function of the calls made so far and of the
  arguments of this call.
\<close>

type_synonym renderer = "event list \<Rightarrow> rat list \<Rightarrow> label option \<Rightarrow> int \<Rightarrow> label_out"

text \<open>
  The variable \<^verbatim>\<open>conf\<close> of \<^verbatim>\<open>plot\<close> starts as the boolean argument and is assigned in
  the loops (\<^verbatim>\<open>float(d.conf) if conf else None\<close>); \<open>truthy\<close> is Python's truth value of it.
\<close>

datatype conf_val = Conf_bool bool | Conf_float rat | Conf_none

fun truthy :: "conf_val \<Rightarrow> bool" where
  "truthy (Conf_bool b) = b"
| "truthy (Conf_float x) = (x \<noteq> 0)"
| "truthy Conf_none = False"

text \<open>The local variables of \<^verbatim>\<open>plot\<close>, the global \<^verbatim>\<open>HISTORY_VLA_pt\<close> and the calls made.\<close>

record plot_state =
  conf :: conf_val
  Final_VLA_pt :: rect
  Final_DCA_pt :: rect
  Final_VPA_pt :: rect
  Final_DUA_d_pt :: rect
  Final_DUA_m_pt :: rect
  Final_DUA_u_pt :: rect
  Final_DUA_ut_pt :: rect
  im :: "(int \<times> int) option"
  HISTORY_VLA_pt :: "rect option"
  calls :: "event list"

text \<open>Lines 262 to 270.\<close>

definition init_state :: "bool \<Rightarrow> rect option \<Rightarrow> plot_state" where
  "init_state conf0 hist =
     \<lparr>conf = Conf_bool conf0,
      Final_VLA_pt = ABSENT, Final_DCA_pt = ABSENT, Final_VPA_pt = ABSENT,
      Final_DUA_d_pt = ABSENT, Final_DUA_m_pt = ABSENT, Final_DUA_u_pt = ABSENT,
      Final_DUA_ut_pt = ABSENT,
      im = None, HISTORY_VLA_pt = hist, calls = []\<rparr>"

text \<open>\<^verbatim>\<open>if X_pt[0] != 9999: Final_X_pt = X_pt\<close>: the new value of \<^verbatim>\<open>Final_X_pt\<close>.\<close>

definition overwrite :: "rect \<Rightarrow> rect \<Rightarrow> rect" where
  "overwrite cand cur = (if idx0 cand \<noteq> 9999 then cand else cur)"

text \<open>
  \<^verbatim>\<open>for d in reversed(pred_boxes)\<close> asks for \<^verbatim>\<open>pred_boxes[i]\<close>, highest index first, and
  \<^verbatim>\<open>BaseTensor.__getitem__\<close> builds it as \<^verbatim>\<open>self.__class__(self.data[idx], self.orig_shape)\<close>:
  a new \<^verbatim>\<open>Boxes\<close> of the one row \<open>r\<close>.
\<close>

definition Boxes_getitem :: "Boxes \<Rightarrow> rat list \<Rightarrow> error + Boxes" where
  "Boxes_getitem b r = Boxes_init (Arr1 r) (orig_shape b)"

definition reversed :: "Boxes option \<Rightarrow> (error + Boxes) list" where
  "reversed pb =
     (case pb of None \<Rightarrow> [] | Some b \<Rightarrow> rev (map (Boxes_getitem b) (rows_of (data b))))"

text \<open>
  Lines 275 to 277 (and again 357 to 359) for one detection \<open>d\<close>: \<^verbatim>\<open>c\<close>, the new \<^verbatim>\<open>conf\<close>
  and the label; \<^verbatim>\<open>names[c]\<close> raises \<^verbatim>\<open>KeyError\<close> for a class without a name. The
  properties of the one-row \<open>d\<close> are arrays of one element, read by \<^verbatim>\<open>int\<close>, \<^verbatim>\<open>float\<close>,
  \<^verbatim>\<open>item\<close> and \<^verbatim>\<open>squeeze\<close>.
\<close>

definition mk_label :: "bool \<Rightarrow> int option \<Rightarrow> string \<Rightarrow> conf_val \<Rightarrow> label option" where
  "mk_label labels tid nm cf =
     (if labels
      then Some (Label tid nm (case cf of Conf_float x \<Rightarrow> (if x \<noteq> 0 then Some x else None) | _ \<Rightarrow> None))
      else None)"

definition detection_label ::
  "(int \<rightharpoonup> string) \<Rightarrow> bool \<Rightarrow> conf_val \<Rightarrow> Boxes \<Rightarrow> error + (int \<times> conf_val \<times> label option)" where
  "detection_label names labels cf0 d =
     (let c = py_int (Boxes_cls d ! 0);
          cf = (if truthy cf0 then Conf_float (Boxes_conf d ! 0) else Conf_none);
          tid = (case Boxes_id d of None \<Rightarrow> None | Some ids \<Rightarrow> Some (py_int (ids ! 0)))
      in case names c of
           None \<Rightarrow> Inl KeyError
         | Some nm \<Rightarrow> Inr (c, cf, mk_label labels tid nm cf))"

text \<open>The body of the first loop, lines 275 to 296.\<close>

definition label_step ::
  "(int \<rightharpoonup> string) \<Rightarrow> renderer \<Rightarrow> bool \<Rightarrow> Boxes \<Rightarrow> plot_state \<Rightarrow> error + plot_state" where
  "label_step names box_label labels d s =
     (case detection_label names labels (conf s) d of
        Inl e \<Rightarrow> Inl e
      | Inr (c, cf, lbl) \<Rightarrow>
          (let xyxy = Boxes_xyxy d ! 0;
               out = box_label (calls s) xyxy lbl c
           in Inr (s\<lparr>conf := cf,
                     im := Some (im_shape out),
                     calls := calls s @ [Box_label xyxy lbl c out],
                     Final_VLA_pt := overwrite (VLA_pt out) (Final_VLA_pt s),
                     HISTORY_VLA_pt :=
                       (if idx0 (VLA_pt out) \<noteq> 9999 then Some (VLA_pt out) else HISTORY_VLA_pt s),
                     Final_DCA_pt := overwrite (DCA_pt out) (Final_DCA_pt s),
                     Final_VPA_pt := overwrite (VPA_pt out) (Final_VPA_pt s),
                     Final_DUA_d_pt := overwrite (DUA_d_pt out) (Final_DUA_d_pt s),
                     Final_DUA_m_pt := overwrite (DUA_m_pt out) (Final_DUA_m_pt s),
                     Final_DUA_u_pt := overwrite (DUA_u_pt out) (Final_DUA_u_pt s),
                     Final_DUA_ut_pt := overwrite (DUA_ut_pt out) (Final_DUA_ut_pt s)\<rparr>)))"

text \<open>
  The loop over what the iteration yields, in the order it is yielded; an exception, of
  \<^verbatim>\<open>pred_boxes[i]\<close> or of the body, ends it.
\<close>

fun label_loop ::
  "(int \<rightharpoonup> string) \<Rightarrow> renderer \<Rightarrow> bool \<Rightarrow> (error + Boxes) list \<Rightarrow> plot_state \<Rightarrow> error + plot_state" where
  "label_loop names box_label labels [] s = Inr s"
| "label_loop names box_label labels (Inl e # ds) s = Inl e"
| "label_loop names box_label labels (Inr d # ds) s =
     (case label_step names box_label labels d s of
        Inl e \<Rightarrow> Inl e
      | Inr s' \<Rightarrow> label_loop names box_label labels ds s')"

section \<open>Results.plot: key points and the FCW pass\<close>

text \<open>Lines 299 to 337: the corners of a resolved rectangle, \<open>None\<close> for an absent one.\<close>

definition l_p :: "rect \<Rightarrow> point option" where
  "l_p r = (if idx0 r \<noteq> 9999 then Some (idx0 r, idx1 r) else None)"

definition r_p :: "rect \<Rightarrow> point option" where
  "r_p r = (if idx0 r \<noteq> 9999 then Some (idx2 r, idx3 r) else None)"

definition vp :: "plot_state \<Rightarrow> point option" where
  "vp s =
     (if idx0 (Final_VLA_pt s) \<noteq> 9999 \<and> idx0 (Final_VPA_pt s) \<noteq> 9999
      then Some (py_int (of_int (idx0 (Final_VPA_pt s) + idx2 (Final_VPA_pt s)) / 2),
                 idx1 (Final_VLA_pt s))
      else None)"

text \<open>Lines 349 to 354.\<close>

definition ADAS_Key_Points :: "plot_state \<Rightarrow> keypoints" where
  "ADAS_Key_Points s =
     ((l_p (Final_DCA_pt s), r_p (Final_DCA_pt s)),
      (l_p (Final_DUA_d_pt s), r_p (Final_DUA_d_pt s)),
      (l_p (Final_DUA_m_pt s), r_p (Final_DUA_m_pt s)),
      (l_p (Final_DUA_u_pt s), r_p (Final_DUA_u_pt s)),
      (l_p (Final_DUA_ut_pt s), r_p (Final_DUA_ut_pt s)))"

text \<open>The body of the second loop, lines 357 to 361.\<close>

definition fcws_step ::
  "(int \<rightharpoonup> string) \<Rightarrow> bool \<Rightarrow> keypoints \<Rightarrow> Boxes \<Rightarrow> plot_state \<Rightarrow> error + plot_state" where
  "fcws_step names labels kps d s =
     (case detection_label names labels (conf s) d of
        Inl e \<Rightarrow> Inl e
      | Inr (c, cf, lbl) \<Rightarrow>
          (case HISTORY_VLA_pt s of
             None \<Rightarrow> Inr (s\<lparr>conf := cf\<rparr>)
           | Some hist \<Rightarrow>
               Inr (s\<lparr>conf := cf,
                      calls := calls s @ [Box_FCWS_label (Boxes_xyxy d ! 0) kps (idx1 hist) lbl c]\<rparr>)))"

fun fcws_loop ::
  "(int \<rightharpoonup> string) \<Rightarrow> bool \<Rightarrow> keypoints \<Rightarrow> (error + Boxes) list \<Rightarrow> plot_state \<Rightarrow> error + plot_state" where
  "fcws_loop names labels kps [] s = Inr s"
| "fcws_loop names labels kps (Inl e # ds) s = Inl e"
| "fcws_loop names labels kps (Inr d # ds) s =
     (case fcws_step names labels kps d s of
        Inl e \<Rightarrow> Inl e
      | Inr s' \<Rightarrow> fcws_loop names labels kps ds s')"

section \<open>Results.plot: the overlay\<close>

text \<open>The switches of lines 363 to 369.\<close>

definition DRAW_MIDDLE_LINE :: bool where "DRAW_MIDDLE_LINE = True"
definition DRAW_LEFT_LINE :: bool where "DRAW_LEFT_LINE = True"
definition DRAW_RIGHT_LINE :: bool where "DRAW_RIGHT_LINE = True"
definition DRAW_CENTER_LINE :: bool where "DRAW_CENTER_LINE = True"
definition DRAW_LDWS :: bool where "DRAW_LDWS = True"
definition DRAW_VANISH_LINE :: bool where "DRAW_VANISH_LINE = True"
definition DRAW_VANISH_POINT :: bool where "DRAW_VANISH_POINT = False"

text \<open>Lines 371 to 373.\<close>

definition vanish_line :: "plot_state \<Rightarrow> event list" where
  "vanish_line s =
     (if DRAW_VANISH_LINE
      then (case (l_p (Final_VLA_pt s), r_p (Final_VLA_pt s)) of
              (Some l_vl, Some r_vl) \<Rightarrow> [Cv_line l_vl r_vl [255, 0, 200] 1]
            | _ \<Rightarrow> [])
      else [])"

text \<open>
  \<^verbatim>\<open>m_p = (int((Final_pt[0]+Final_pt[2])/2.0), Final_pt[3])\<close>, the waypoint of the middle
  line on a rectangle.
\<close>

definition m_p :: "rect \<Rightarrow> point" where
  "m_p r = (py_int (of_int (idx0 r + idx2 r) / 2), idx3 r)"

text \<open>
  One block of lines 381 to 413, for two consecutive rectangles \<open>A\<close> and \<open>B\<close> of
  \<^verbatim>\<open>Final_DCA_pt, Final_DUA_d_pt, Final_DUA_m_pt, Final_DUA_u_pt, Final_DUA_ut_pt\<close>:
  \<^verbatim>\<open>if l_pA is not None and l_pB is not None\<close>, the left segment, then the middle one.
\<close>

definition left_middle_block :: "rect \<Rightarrow> rect \<Rightarrow> event list" where
  "left_middle_block A B =
     (case (l_p A, l_p B) of
        (Some l_pA, Some l_pB) \<Rightarrow>
          (if DRAW_LEFT_LINE then [Cv_line l_pA l_pB [127, 255, 0] 2] else []) @
          (if DRAW_MIDDLE_LINE then [Cv_line (m_p A) (m_p B) [255, 127] 2] else [])
      | _ \<Rightarrow> [])"

text \<open>Lines 414 to 432, switched off by \<^verbatim>\<open>DRAW_VANISH_POINT\<close>.\<close>

definition vanish_point_left :: "plot_state \<Rightarrow> event list" where
  "vanish_point_left s =
     (if DRAW_VANISH_POINT
      then (case (l_p (Final_DUA_ut_pt s), vp s) of
              (Some l_p5, Some v) \<Rightarrow>
                (if DRAW_LEFT_LINE then [Cv_line l_p5 v [127, 255, 0] 1] else []) @
                (if DRAW_MIDDLE_LINE then [Cv_line (m_p (Final_DUA_ut_pt s)) v [255, 127] 1] else [])
            | (None, Some v) \<Rightarrow>
                (case l_p (Final_DUA_u_pt s) of
                   Some l_p4 \<Rightarrow>
                     (if DRAW_LEFT_LINE then [Cv_line l_p4 v [127, 255, 0] 1] else []) @
                     (if DRAW_MIDDLE_LINE then [Cv_line (m_p (Final_DUA_u_pt s)) v [255, 127] 1] else [])
                 | None \<Rightarrow> [])
            | _ \<Rightarrow> [])
      else [])"

text \<open>One line of 443 to 450: \<^verbatim>\<open>if r_pA is not None and r_pB is not None\<close>.\<close>

definition right_segment :: "rect \<Rightarrow> rect \<Rightarrow> event list" where
  "right_segment A B =
     (case (r_p A, r_p B) of
        (Some r_pA, Some r_pB) \<Rightarrow> [Cv_line r_pA r_pB [0, 127, 255] 2]
      | _ \<Rightarrow> [])"

definition right_line :: "plot_state \<Rightarrow> event list" where
  "right_line s =
     (if DRAW_RIGHT_LINE
      then right_segment (Final_DCA_pt s) (Final_DUA_d_pt s) @
           right_segment (Final_DUA_d_pt s) (Final_DUA_m_pt s) @
           right_segment (Final_DUA_m_pt s) (Final_DUA_u_pt s) @
           right_segment (Final_DUA_u_pt s) (Final_DUA_ut_pt s)
      else [])"

text \<open>Lines 451 to 455, switched off by \<^verbatim>\<open>DRAW_VANISH_POINT\<close>.\<close>

definition vanish_point_right :: "plot_state \<Rightarrow> event list" where
  "vanish_point_right s =
     (if DRAW_VANISH_POINT
      then (case (r_p (Final_DUA_ut_pt s), vp s) of
              (Some r_p5, Some v) \<Rightarrow> [Cv_line r_p5 v [0, 127, 255] 2]
            | (None, Some v) \<Rightarrow>
                (case r_p (Final_DUA_u_pt s) of
                   Some r_p4 \<Rightarrow> [Cv_line r_p4 v [0, 127, 255] 1]
                 | None \<Rightarrow> [])
            | _ \<Rightarrow> [])
      else [])"

text \<open>
  Lines 459 to 465, for \<^verbatim>\<open>h, w = im.shape[0], im.shape[1]\<close>; the factors 0.80 and 0.99
  are read as the fractions \<open>80 / 100\<close> and \<open>99 / 100\<close>.
\<close>

definition center_line :: "int \<times> int \<Rightarrow> event list" where
  "center_line shp =
     (case shp of (h, w) \<Rightarrow>
        if DRAW_CENTER_LINE
        then (let c_x = py_int (of_int w / 2);
                  c_y1 = py_int (of_int h * (80 / 100));
                  c_y2 = py_int (of_int h * (99 / 100))
              in [Cv_line (c_x, c_y1) (c_x, c_y2) [255, 255, 0] 2])
        else [])"

text \<open>Lines 470 to 477; 3.5 is \<open>7 / 2\<close>.\<close>

definition LDWS :: "int \<times> int \<Rightarrow> rect \<Rightarrow> event list" where
  "LDWS shp dca =
     (case shp of (h, w) \<Rightarrow>
        if DRAW_LDWS
        then (case (l_p dca, r_p dca) of
                (Some l_p1, Some r_p1) \<Rightarrow>
                  (let LD_TH = py_int (of_int \<bar>fst r_p1 - fst l_p1\<bar> / (7 / 2));
                       driver_x = py_int (of_int (fst l_p1 + fst r_p1) / 2);
                       departure_distance = \<bar>driver_x - py_int (of_int w / 2)\<bar>
                   in if departure_distance > LD_TH
                      then [Cv_putText ''DEPARTURE WARNING !''
                              (py_int (of_int w / 8), py_int (of_int h / 4))]
                      else [])
              | _ \<Rightarrow> [])
        else [])"

text \<open>Lines 363 to 477: every drawing call, in the order of the source.\<close>

definition overlay :: "plot_state \<Rightarrow> event list" where
  "overlay s =
     vanish_line s @
     left_middle_block (Final_DCA_pt s) (Final_DUA_d_pt s) @
     left_middle_block (Final_DUA_d_pt s) (Final_DUA_m_pt s) @
     left_middle_block (Final_DUA_m_pt s) (Final_DUA_u_pt s) @
     left_middle_block (Final_DUA_u_pt s) (Final_DUA_ut_pt s) @
     vanish_point_left s @
     right_line s @
     vanish_point_right s @
     (case im s of
        None \<Rightarrow> []
      | Some shp \<Rightarrow> center_line shp @ LDWS shp (Final_DCA_pt s))"

section \<open>Results.plot\<close>

text \<open>The truth value of \<^verbatim>\<open>pred_boxes\<close>: not \<^verbatim>\<open>None\<close> and of length other than 0.\<close>

definition boxes_truth :: "Boxes option \<Rightarrow> bool" where
  "boxes_truth pb = (case pb of None \<Rightarrow> False | Some b \<Rightarrow> rows_of (data b) \<noteq> [])"

text \<open>
  \<^verbatim>\<open>Results.plot\<close> from line 262 to line 477, with the arguments \<^verbatim>\<open>conf\<close>, \<^verbatim>\<open>labels\<close>
  and \<^verbatim>\<open>boxes\<close>, the field \<^verbatim>\<open>self.boxes\<close> and the global \<^verbatim>\<open>HISTORY_VLA_pt\<close> as it is
  when the call starts. The result is the state when line 477 is left, or the exception.
\<close>

definition plot ::
  "(int \<rightharpoonup> string) \<Rightarrow> renderer \<Rightarrow> bool \<Rightarrow> bool \<Rightarrow> bool \<Rightarrow> Boxes option \<Rightarrow> rect option
     \<Rightarrow> error + plot_state" where
  "plot names box_label conf0 labels show_boxes pred_boxes hist =
     (case (if boxes_truth pred_boxes \<and> show_boxes
            then label_loop names box_label labels (reversed pred_boxes) (init_state conf0 hist)
            else Inr (init_state conf0 hist)) of
        Inl e \<Rightarrow> Inl e
      | Inr s1 \<Rightarrow>
          (case (if boxes_truth pred_boxes \<and> show_boxes
                 then fcws_loop names labels (ADAS_Key_Points s1) (reversed pred_boxes) s1
                 else Inr s1) of
             Inl e \<Rightarrow> Inl e
           | Inr s2 \<Rightarrow> Inr (s2\<lparr>calls := calls s2 @ overlay s2\<rparr>)))"

section \<open>Observing a run of plot\<close>

text \<open>The seven landmark kinds, the slot of a kind in what the renderer returned, and the
  local variable that holds the resolved rectangle of a kind.\<close>

datatype kind = VLA | DCA | VPA | DUA_d | DUA_m | DUA_u | DUA_ut

fun slot :: "kind \<Rightarrow> label_out \<Rightarrow> rect" where
  "slot VLA = VLA_pt"
| "slot DCA = DCA_pt"
| "slot VPA = VPA_pt"
| "slot DUA_d = DUA_d_pt"
| "slot DUA_m = DUA_m_pt"
| "slot DUA_u = DUA_u_pt"
| "slot DUA_ut = DUA_ut_pt"

fun resolved :: "kind \<Rightarrow> plot_state \<Rightarrow> rect" where
  "resolved VLA = Final_VLA_pt"
| "resolved DCA = Final_DCA_pt"
| "resolved VPA = Final_VPA_pt"
| "resolved DUA_d = Final_DUA_d_pt"
| "resolved DUA_m = Final_DUA_m_pt"
| "resolved DUA_u = Final_DUA_u_pt"
| "resolved DUA_ut = Final_DUA_ut_pt"

text \<open>
  The calls of a run, by callee: the \<^verbatim>\<open>box_label\<close> calls (rectangle passed, result
  returned), the \<^verbatim>\<open>box_FCWS_label\<close> calls (rectangle, key points, reference row) and the
  \<^verbatim>\<open>cv2\<close> calls.
\<close>

fun label_call :: "event \<Rightarrow> (rat list \<times> label_out) list" where
  "label_call (Box_label xyxy lbl c out) = [(xyxy, out)]"
| "label_call _ = []"

fun fcws_call :: "event \<Rightarrow> (rat list \<times> keypoints \<times> int) list" where
  "fcws_call (Box_FCWS_label xyxy kps row lbl c) = [(xyxy, kps, row)]"
| "fcws_call _ = []"

fun drawing :: "event \<Rightarrow> event list" where
  "drawing (Cv_line p q col th) = [Cv_line p q col th]"
| "drawing (Cv_putText t p) = [Cv_putText t p]"
| "drawing _ = []"

definition label_calls :: "event list \<Rightarrow> (rat list \<times> label_out) list" where
  "label_calls evs = concat (map label_call evs)"

definition fcws_calls :: "event list \<Rightarrow> (rat list \<times> keypoints \<times> int) list" where
  "fcws_calls evs = concat (map fcws_call evs)"

definition drawings :: "event list \<Rightarrow> event list" where
  "drawings evs = concat (map drawing evs)"

text \<open>
  The results of the \<^verbatim>\<open>box_label\<close> calls of a run listed by the original index of the
  detection: the loop visits the detections in reverse, so the call for detection 0 is
  the last one made.
\<close>

definition results_by_index :: "plot_state \<Rightarrow> label_out list" where
  "results_by_index s = rev (map snd (label_calls (calls s)))"

text \<open>Some detection of the run supplied kind \<open>k\<close>.\<close>

definition supplied :: "kind \<Rightarrow> plot_state \<Rightarrow> bool" where
  "supplied k s = list_ex (\<lambda>out. idx0 (slot k out) \<noteq> 9999) (results_by_index s)"

text \<open>The reference rows the \<^verbatim>\<open>box_FCWS_label\<close> calls of a run were given.\<close>

definition fcws_rows :: "plot_state \<Rightarrow> int list" where
  "fcws_rows s = map (\<lambda>(xyxy, kps, row). row) (fcws_calls (calls s))"

text \<open>
  The rows of the detections both loops visit, in the order visited: none unless
  \<^verbatim>\<open>pred_boxes and show_boxes\<close>.
\<close>

definition visited :: "bool \<Rightarrow> Boxes option \<Rightarrow> rat list list" where
  "visited show_boxes pred_boxes =
     (case pred_boxes of
        None \<Rightarrow> []
      | Some b \<Rightarrow> if show_boxes then rev (rows_of (data b)) else [])"

text \<open>The assignment to \<^verbatim>\<open>HISTORY_VLA_pt\<close> in the first loop, as a function of one result.\<close>

definition history_after :: "rect option \<Rightarrow> label_out \<Rightarrow> rect option" where
  "history_after h out = (if idx0 (VLA_pt out) \<noteq> 9999 then Some (VLA_pt out) else h)"

text \<open>A run returned, and its final state satisfies \<open>P\<close>.\<close>

definition returns :: "error + plot_state \<Rightarrow> (plot_state \<Rightarrow> bool) \<Rightarrow> bool" where
  "returns r P = (case r of Inl e \<Rightarrow> False | Inr s \<Rightarrow> P s)"

text \<open>The captions of a run: the text and the position of every \<^verbatim>\<open>cv2.putText\<close> call.\<close>

fun caption :: "event \<Rightarrow> (string \<times> point) list" where
  "caption (Cv_putText t p) = [(t, p)]"
| "caption _ = []"

definition captions :: "event list \<Rightarrow> (string \<times> point) list" where
  "captions evs = concat (map caption evs)"

text \<open>The two corners of a landmark, as a presence test on the first coordinate alone.\<close>

definition corners :: "rect \<Rightarrow> keypair" where
  "corners r =
     (if idx0 r \<noteq> 9999 then (Some (idx0 r, idx1 r), Some (idx2 r, idx3 r)) else (None, None))"

section \<open>The specification's wording\<close>

text \<open>
  The departure rule as the specification words it, over the rationals:
  \<open>|(left.x + right.x)/2 - width/2| > |right.x - left.x| / 3.5\<close>.
\<close>

definition spec_departure :: "int \<Rightarrow> int \<Rightarrow> int \<Rightarrow> bool" where
  "spec_departure w lx rx =
     (\<bar>(of_int lx + of_int rx) / 2 - of_int w / 2\<bar> > (\<bar>of_int rx - of_int lx\<bar> / (7 / 2) :: rat))"

text \<open>
  The same rule with the lane centre and the frame centre truncated to whole pixels
  first, the threshold left as it is.
\<close>

definition pixel_departure :: "int \<Rightarrow> int \<Rightarrow> int \<Rightarrow> bool" where
  "pixel_departure w lx rx =
     (of_int \<bar>py_int (of_int (lx + rx) / 2) - py_int (of_int w / 2)\<bar>
        > (of_int \<bar>rx - lx\<bar> / (7 / 2) :: rat))"

text \<open>
  A polyline through the landmarks \<open>fs\<close>, every segment gated on its own two endpoints:
  \<open>seg A B\<close> is drawn when \<open>A\<close> and \<open>B\<close> are both resolved, and skipped otherwise.
\<close>

definition spec_polyline :: "(rect \<Rightarrow> rect \<Rightarrow> event list) \<Rightarrow> rect list \<Rightarrow> event list" where
  "spec_polyline seg fs =
     concat (map (\<lambda>(A, B). if idx0 A \<noteq> 9999 \<and> idx0 B \<noteq> 9999 then seg A B else [])
               (zip fs (tl fs)))"

definition left_middle_segments :: "rect \<Rightarrow> rect \<Rightarrow> event list" where
  "left_middle_segments A B =
     [Cv_line (idx0 A, idx1 A) (idx0 B, idx1 B) [127, 255, 0] 2,
      Cv_line (m_p A) (m_p B) [255, 127] 2]"

definition right_segments :: "rect \<Rightarrow> rect \<Rightarrow> event list" where
  "right_segments A B = [Cv_line (idx2 A, idx3 A) (idx2 B, idx3 B) [0, 127, 255] 2]"

definition lane_landmarks :: "plot_state \<Rightarrow> rect list" where
  "lane_landmarks s =
     [Final_DCA_pt s, Final_DUA_d_pt s, Final_DUA_m_pt s, Final_DUA_u_pt s, Final_DUA_ut_pt s]"

text \<open>Strictly descending and descending probabilities along a list of class indices.\<close>

definition strictly_descending :: "rat list \<Rightarrow> nat list \<Rightarrow> bool" where
  "strictly_descending xs is = sorted_wrt (\<lambda>i j. xs ! i > xs ! j) is"

definition descending :: "rat list \<Rightarrow> nat list \<Rightarrow> bool" where
  "descending xs is = sorted_wrt (\<lambda>i j. xs ! i \<ge> xs ! j) is"

section \<open>Example frames\<close>

text \<open>
  A renderer for the examples: a detection of class 1 to 7 is a landmark of the kind with
  that number and supplies its own rectangle in that slot, every other slot is the
  sentinel; the frame it returns has the shape \<open>shp\<close>.
\<close>

definition ex_rect :: "rat list \<Rightarrow> rect" where
  "ex_rect xyxy = (py_int (xyxy ! 0), py_int (xyxy ! 1), py_int (xyxy ! 2), py_int (xyxy ! 3))"

definition ex_box_label :: "int \<times> int \<Rightarrow> renderer" where
  "ex_box_label shp evs xyxy lbl c =
     \<lparr>VLA_pt = (if c = 1 then ex_rect xyxy else ABSENT),
      DCA_pt = (if c = 2 then ex_rect xyxy else ABSENT),
      VPA_pt = (if c = 3 then ex_rect xyxy else ABSENT),
      DUA_d_pt = (if c = 4 then ex_rect xyxy else ABSENT),
      DUA_m_pt = (if c = 5 then ex_rect xyxy else ABSENT),
      DUA_u_pt = (if c = 6 then ex_rect xyxy else ABSENT),
      DUA_ut_pt = (if c = 7 then ex_rect xyxy else ABSENT),
      im_shape = shp\<rparr>"

definition ex_names :: "int \<rightharpoonup> string" where
  "ex_names c = (if 0 \<le> c \<and> c \<le> 7 then Some ''cls'' else None)"

definition ex_boxes :: "rat list list \<Rightarrow> Boxes option" where
  "ex_boxes rs = Some \<lparr>data = Arr2 6 rs, orig_shape = (480, 640), is_track = False\<rparr>"

text \<open>Detections 0 and 2 are centre-divider landmarks, detection 1 is a car.\<close>

definition ex_tie :: "rat list list" where
  "ex_tie = [[100, 400, 340, 420, 9 / 10, 2],
             [50, 60, 70, 80, 8 / 10, 0],
             [200, 400, 440, 420, 7 / 10, 2]]"

text \<open>A vanish line and a car; a car alone; another vanish line and a car.\<close>

definition ex_frame1 :: "rat list list" where
  "ex_frame1 = [[0, 300, 640, 310, 9 / 10, 1], [50, 60, 70, 80, 8 / 10, 0]]"

definition ex_frame2 :: "rat list list" where
  "ex_frame2 = [[50, 60, 70, 80, 8 / 10, 0]]"

definition ex_frame3 :: "rat list list" where
  "ex_frame3 = [[0, 280, 640, 290, 9 / 10, 1], [50, 60, 70, 80, 8 / 10, 0]]"

text \<open>One centre-divider landmark with the corners \<open>(lx, 400)\<close> and \<open>(rx, 400)\<close>.\<close>

definition ex_lane :: "rat \<Rightarrow> rat \<Rightarrow> rat list list" where
  "ex_lane lx rx = [[lx, 400, rx, 400, 9 / 10, 2]]"

text \<open>The near and the far drivable-area landmarks, and nothing else.\<close>

definition ex_near_far :: "rat list list" where
  "ex_near_far = [[150, 380, 500, 400, 9 / 10, 4], [250, 300, 400, 320, 9 / 10, 6]]"

text \<open>All lane landmarks but the middle one.\<close>

definition ex_no_mid :: "rat list list" where
  "ex_no_mid = [[100, 440, 560, 460, 9 / 10, 2], [150, 380, 500, 400, 9 / 10, 4],
                [250, 300, 400, 320, 9 / 10, 6], [290, 260, 360, 280, 9 / 10, 7]]"

text \<open>A centre divider whose first coordinate is 9999, and one where only it is not.\<close>

definition ex_first_9999 :: "rat list list" where
  "ex_first_9999 = [[9999, 10, 20, 30, 9 / 10, 2]]"

definition ex_rest_9999 :: "rat list list" where
  "ex_rest_9999 = [[5, 9999, 9999, 9999, 9 / 10, 2]]"

text \<open>One detection in a frame of height 480 and width 640.\<close>

definition ex_buffer :: ndarray where
  "ex_buffer = Arr2 6 [[64, 48, 320, 240, 9 / 10, 0]]"

text \<open>A conversion to centre, width and height, to stand for \<^verbatim>\<open>ops.xyxy2xywh\<close>.\<close>

definition ex_xyxy2xywh :: "rat list list \<Rightarrow> rat list list" where
  "ex_xyxy2xywh = map (\<lambda>r. [(r ! 0 + r ! 2) / 2, (r ! 1 + r ! 3) / 2, r ! 2 - r ! 0, r ! 3 - r ! 1])"

section \<open>Lemmas on Boxes\<close>

lemma shape_last_add_axis: "shape_last (add_axis a) = shape_last a"
  by (cases a) simp_all

lemma div_mul_wh:
  assumes "length r = 4" "0 < h" "0 < w"
  shows "mul_wh (h, w) (div_wh (h, w) r) = r"
proof -
  from assms(1) obtain a b c d where r: "r = [a, b, c, d]"
    by (auto simp: length_Suc_conv numeral_eq_Suc)
  show ?thesis using assms(2,3) by (simp add: r mul_wh_def div_wh_def)
qed

lemma map_div_mul_wh:
  assumes "list_all (\<lambda>r. length r = 4) X" "0 < h" "0 < w"
  shows "map (mul_wh (h, w)) (map (div_wh (h, w)) X) = X"
  using assms by (induction X) (simp_all add: div_mul_wh)

lemma Boxes_init_xyxy_width:
  assumes "Boxes_init boxes shp = Inr b" "wf_ndarray boxes"
  shows "list_all (\<lambda>r. length r = 4) (Boxes_xyxy b)"
proof (cases boxes)
  case (Arr1 xs)
  with assms show ?thesis
    by (auto simp: Boxes_init_def Let_def Boxes_xyxy_def split: if_splits)
next
  case (Arr2 c rs)
  with assms show ?thesis
    by (auto simp: Boxes_init_def Let_def Boxes_xyxy_def list_all_iff split: if_splits)
qed

section \<open>Lemmas on top5\<close>

lemma set_argsort: "set (argsort xs) = {..<length xs}"
  by (auto simp: argsort_def)

lemma distinct_argsort: "distinct (argsort xs)"
  by (simp add: argsort_def)

lemma length_argsort: "length (argsort xs) = length xs"
  by (simp add: argsort_def)

lemma sorted_argsort: "sorted (map (\<lambda>i. xs ! i) (argsort xs))"
  by (simp add: argsort_def)

lemma length_top5: "length (top5 xs) = min 5 (length xs)"
  by (simp add: top5_def length_argsort min.commute)

lemma set_top5: "set (top5 xs) \<subseteq> {..<length xs}"
  using set_take_subset[of 5 "argsort (map uminus xs)"] set_argsort[of "map uminus xs"]
  by (simp add: top5_def)

lemma distinct_top5: "distinct (top5 xs)"
  by (simp add: top5_def distinct_argsort)

lemma top5_descending: "sorted_wrt (\<lambda>i j. xs ! i \<ge> xs ! j) (top5 xs)"
proof -
  have "sorted (map (\<lambda>i. map uminus xs ! i) (take 5 (argsort (map uminus xs))))"
    using sorted_argsort[of "map uminus xs"] by (simp add: take_map[symmetric] sorted_wrt_take)
  then have "sorted_wrt (\<lambda>i j. map uminus xs ! i \<le> map uminus xs ! j) (top5 xs)"
    by (simp add: sorted_map top5_def)
  then show ?thesis
  proof (rule sorted_wrt_mono_rel[rotated])
    fix i j assume "i \<in> set (top5 xs)" "j \<in> set (top5 xs)" "map uminus xs ! i \<le> map uminus xs ! j"
    with set_top5[of xs] show "xs ! j \<le> xs ! i" by (auto simp: subset_iff)
  qed
qed

lemma top5_strict:
  assumes "distinct xs"
  shows "sorted_wrt (\<lambda>i j. xs ! i > xs ! j) (top5 xs)"
proof -
  have "sorted_wrt (\<lambda>i j. i \<noteq> j) (top5 xs)"
    using distinct_top5[of xs] by (simp add: distinct_conv_nth sorted_wrt_iff_nth_less) 
  with top5_descending[of xs]
  have "sorted_wrt (\<lambda>i j. xs ! i \<ge> xs ! j \<and> i \<noteq> j) (top5 xs)"
    by (simp add: sorted_wrt_iff_nth_less)
  then show ?thesis
  proof (rule sorted_wrt_mono_rel[rotated])
    fix i j assume "i \<in> set (top5 xs)" "j \<in> set (top5 xs)" "xs ! j \<le> xs ! i \<and> i \<noteq> j"
    with set_top5[of xs] assms show "xs ! j < xs ! i"
      by (auto simp: subset_iff nth_eq_iff_index_eq order_less_le)
  qed
qed

section \<open>Lemmas on the passes of plot\<close>

lemma Boxes_getitem_xyxy:
  assumes "Boxes_getitem b r = Inr d"
  shows "Boxes_xyxy d ! 0 = take 4 r"
  using assms
  by (auto simp: Boxes_getitem_def Boxes_init_def Let_def Boxes_xyxy_def split: if_splits)

lemma label_step_effect:
  assumes "label_step names bl labels d s = Inr s'"
  shows "\<exists>out. label_calls (calls s') = label_calls (calls s) @ [(Boxes_xyxy d ! 0, out)] \<and>
           fcws_calls (calls s') = fcws_calls (calls s) \<and>
           drawings (calls s') = drawings (calls s) \<and>
           (\<forall>k. resolved k s' = overwrite (slot k out) (resolved k s)) \<and>
           HISTORY_VLA_pt s' = history_after (HISTORY_VLA_pt s) out \<and>
           im s' = Some (im_shape out)"
proof -
  from assms obtain c cf lbl where v: "detection_label names labels (conf s) d = Inr (c, cf, lbl)"
    by (auto simp: label_step_def split: sum.splits)
  let ?out = "bl (calls s) (Boxes_xyxy d ! 0) lbl c"
  have s': "s' = s\<lparr>conf := cf, im := Some (im_shape ?out),
      calls := calls s @ [Box_label (Boxes_xyxy d ! 0) lbl c ?out],
      Final_VLA_pt := overwrite (VLA_pt ?out) (Final_VLA_pt s),
      HISTORY_VLA_pt := (if idx0 (VLA_pt ?out) \<noteq> 9999 then Some (VLA_pt ?out) else HISTORY_VLA_pt s),
      Final_DCA_pt := overwrite (DCA_pt ?out) (Final_DCA_pt s),
      Final_VPA_pt := overwrite (VPA_pt ?out) (Final_VPA_pt s),
      Final_DUA_d_pt := overwrite (DUA_d_pt ?out) (Final_DUA_d_pt s),
      Final_DUA_m_pt := overwrite (DUA_m_pt ?out) (Final_DUA_m_pt s),
      Final_DUA_u_pt := overwrite (DUA_u_pt ?out) (Final_DUA_u_pt s),
      Final_DUA_ut_pt := overwrite (DUA_ut_pt ?out) (Final_DUA_ut_pt s)\<rparr>"
    using assms by (auto simp: label_step_def Let_def v)
  have "\<forall>k. resolved k s' = overwrite (slot k ?out) (resolved k s)"
  proof
    fix k show "resolved k s' = overwrite (slot k ?out) (resolved k s)"
      by (cases k) (simp_all add: s')
  qed
  then show ?thesis
    by (intro exI[of _ ?out]) (simp add: s' label_calls_def fcws_calls_def drawings_def history_after_def)
qed

lemma label_loop_effect:
  assumes "label_loop names bl labels (map (Boxes_getitem b) rows) s = Inr s'"
  shows "\<exists>outs. length outs = length rows \<and>
           label_calls (calls s') = label_calls (calls s) @ zip (map (take 4) rows) outs \<and>
           fcws_calls (calls s') = fcws_calls (calls s) \<and>
           drawings (calls s') = drawings (calls s) \<and>
           (\<forall>k. resolved k s' = foldl (\<lambda>cur out. overwrite (slot k out) cur) (resolved k s) outs) \<and>
           HISTORY_VLA_pt s' = foldl history_after (HISTORY_VLA_pt s) outs \<and>
           im s' = (if outs = [] then im s else Some (im_shape (last outs)))"
  using assms
proof (induction rows arbitrary: s)
  case Nil
  then show ?case by simp
next
  case (Cons r rows)
  from Cons.prems obtain d where d: "Boxes_getitem b r = Inr d"
    by (cases "Boxes_getitem b r") simp_all
  from Cons.prems d obtain s1 where s1: "label_step names bl labels d s = Inr s1"
    and rest: "label_loop names bl labels (map (Boxes_getitem b) rows) s1 = Inr s'"
    by (auto split: sum.splits)
  from label_step_effect[OF s1] Boxes_getitem_xyxy[OF d] obtain out where out:
    "label_calls (calls s1) = label_calls (calls s) @ [(take 4 r, out)]"
    "fcws_calls (calls s1) = fcws_calls (calls s)"
    "drawings (calls s1) = drawings (calls s)"
    "\<forall>k. resolved k s1 = overwrite (slot k out) (resolved k s)"
    "HISTORY_VLA_pt s1 = history_after (HISTORY_VLA_pt s) out"
    "im s1 = Some (im_shape out)"
    by auto
  from Cons.IH[OF rest] obtain outs where outs:
    "length outs = length rows"
    "label_calls (calls s') = label_calls (calls s1) @ zip (map (take 4) rows) outs"
    "fcws_calls (calls s') = fcws_calls (calls s1)"
    "drawings (calls s') = drawings (calls s1)"
    "\<forall>k. resolved k s' = foldl (\<lambda>cur out. overwrite (slot k out) cur) (resolved k s1) outs"
    "HISTORY_VLA_pt s' = foldl history_after (HISTORY_VLA_pt s1) outs"
    "im s' = (if outs = [] then im s1 else Some (im_shape (last outs)))"
    by blast
  show ?case
    by (rule exI[of _ "out # outs"]) (simp add: out outs)
qed

lemma fcws_step_effect:
  assumes "fcws_step names labels kps d s = Inr s'"
  shows "label_calls (calls s') = label_calls (calls s) \<and>
         fcws_calls (calls s') = fcws_calls (calls s) @
           (case HISTORY_VLA_pt s of None \<Rightarrow> [] | Some h \<Rightarrow> [(Boxes_xyxy d ! 0, kps, idx1 h)]) \<and>
         drawings (calls s') = drawings (calls s) \<and>
         (\<forall>k. resolved k s' = resolved k s) \<and>
         HISTORY_VLA_pt s' = HISTORY_VLA_pt s \<and>
         im s' = im s"
proof -
  have "\<forall>k. resolved k s' = resolved k s"
  proof
    fix k show "resolved k s' = resolved k s"
      using assms by (cases k) (auto simp: fcws_step_def split: sum.splits option.splits)
  qed
  then show ?thesis
    using assms
    by (auto simp: fcws_step_def label_calls_def fcws_calls_def drawings_def
        split: sum.splits option.splits)
qed

lemma fcws_loop_effect:
  assumes "fcws_loop names labels kps (map (Boxes_getitem b) rows) s = Inr s'"
  shows "label_calls (calls s') = label_calls (calls s) \<and>
         fcws_calls (calls s') = fcws_calls (calls s) @
           (case HISTORY_VLA_pt s of None \<Rightarrow> [] | Some h \<Rightarrow> map (\<lambda>d. (take 4 d, kps, idx1 h)) rows) \<and>
         drawings (calls s') = drawings (calls s) \<and>
         (\<forall>k. resolved k s' = resolved k s) \<and>
         HISTORY_VLA_pt s' = HISTORY_VLA_pt s \<and>
         im s' = im s"
  using assms
proof (induction rows arbitrary: s)
  case Nil
  then show ?case by (simp split: option.splits)
next
  case (Cons r rows)
  from Cons.prems obtain d where d: "Boxes_getitem b r = Inr d"
    by (cases "Boxes_getitem b r") simp_all
  from Cons.prems d obtain s1 where s1: "fcws_step names labels kps d s = Inr s1"
    and rest: "fcws_loop names labels kps (map (Boxes_getitem b) rows) s1 = Inr s'"
    by (auto split: sum.splits)
  show ?case
    using fcws_step_effect[OF s1] Cons.IH[OF rest] Boxes_getitem_xyxy[OF d]
    by (simp split: option.splits)
qed

lemma calls_append:
  "label_calls (xs @ ys) = label_calls xs @ label_calls ys"
  "fcws_calls (xs @ ys) = fcws_calls xs @ fcws_calls ys"
  "drawings (xs @ ys) = drawings xs @ drawings ys"
  by (simp_all add: label_calls_def fcws_calls_def drawings_def)

lemma vanish_line_eq:
  "vanish_line s =
     (if idx0 (Final_VLA_pt s) \<noteq> 9999
      then [Cv_line (idx0 (Final_VLA_pt s), idx1 (Final_VLA_pt s))
              (idx2 (Final_VLA_pt s), idx3 (Final_VLA_pt s)) [255, 0, 200] 1]
      else [])"
  by (simp add: vanish_line_def l_p_def r_p_def DRAW_VANISH_LINE_def)

lemma left_middle_block_eq:
  "left_middle_block A B =
     (if idx0 A \<noteq> 9999 \<and> idx0 B \<noteq> 9999
      then [Cv_line (idx0 A, idx1 A) (idx0 B, idx1 B) [127, 255, 0] 2,
            Cv_line (m_p A) (m_p B) [255, 127] 2]
      else [])"
  by (simp add: left_middle_block_def l_p_def DRAW_LEFT_LINE_def DRAW_MIDDLE_LINE_def)

lemma right_segment_eq:
  "right_segment A B =
     (if idx0 A \<noteq> 9999 \<and> idx0 B \<noteq> 9999
      then [Cv_line (idx2 A, idx3 A) (idx2 B, idx3 B) [0, 127, 255] 2]
      else [])"
  by (simp add: right_segment_def r_p_def)

lemma vanish_point_off: "vanish_point_left s = []" "vanish_point_right s = []"
  by (simp_all add: vanish_point_left_def vanish_point_right_def DRAW_VANISH_POINT_def)

lemma center_line_eq:
  "center_line (h, w) =
     [Cv_line (py_int (of_int w / 2), py_int (of_int h * (80 / 100)))
        (py_int (of_int w / 2), py_int (of_int h * (99 / 100))) [255, 255, 0] 2]"
  by (simp add: center_line_def DRAW_CENTER_LINE_def Let_def)

lemma LDWS_eq:
  "LDWS (h, w) r =
     (if idx0 r \<noteq> 9999 \<and>
         \<bar>py_int (of_int (idx0 r + idx2 r) / 2) - py_int (of_int w / 2)\<bar>
           > py_int (of_int \<bar>idx2 r - idx0 r\<bar> / (7 / 2))
      then [Cv_putText ''DEPARTURE WARNING !'' (py_int (of_int w / 8), py_int (of_int h / 4))]
      else [])"
  by (simp add: LDWS_def l_p_def r_p_def DRAW_LDWS_def Let_def)

lemma calls_vanish_line:
  "label_calls (vanish_line s) = []" "fcws_calls (vanish_line s) = []"
  "drawings (vanish_line s) = vanish_line s"
  by (auto simp: vanish_line_eq label_calls_def fcws_calls_def drawings_def)

lemma calls_left_middle_block:
  "label_calls (left_middle_block A B) = []" "fcws_calls (left_middle_block A B) = []"
  "drawings (left_middle_block A B) = left_middle_block A B"
  by (auto simp: left_middle_block_eq label_calls_def fcws_calls_def drawings_def)

lemma calls_right_segment:
  "label_calls (right_segment A B) = []" "fcws_calls (right_segment A B) = []"
  "drawings (right_segment A B) = right_segment A B"
  by (auto simp: right_segment_eq label_calls_def fcws_calls_def drawings_def)

lemma calls_Nil: "label_calls [] = []" "fcws_calls [] = []" "drawings [] = []"
  by (simp_all add: label_calls_def fcws_calls_def drawings_def)

lemma calls_right_line:
  "label_calls (right_line s) = []" "fcws_calls (right_line s) = []"
  "drawings (right_line s) = right_line s"
  by (simp_all add: right_line_def calls_append calls_right_segment calls_Nil)

lemma calls_vanish_point:
  "label_calls (vanish_point_left s) = []" "fcws_calls (vanish_point_left s) = []"
  "drawings (vanish_point_left s) = vanish_point_left s"
  "label_calls (vanish_point_right s) = []" "fcws_calls (vanish_point_right s) = []"
  "drawings (vanish_point_right s) = vanish_point_right s"
  by (simp_all add: vanish_point_off calls_Nil)

lemma calls_center_line:
  "label_calls (center_line shp) = []" "fcws_calls (center_line shp) = []"
  "drawings (center_line shp) = center_line shp"
  by (cases shp; simp add: center_line_eq label_calls_def fcws_calls_def drawings_def)+

lemma calls_LDWS:
  "label_calls (LDWS shp r) = []" "fcws_calls (LDWS shp r) = []"
  "drawings (LDWS shp r) = LDWS shp r"
  by (cases shp; auto simp: LDWS_eq label_calls_def fcws_calls_def drawings_def)+

lemmas calls_blocks = calls_append calls_Nil calls_vanish_line calls_left_middle_block calls_right_line
  calls_vanish_point calls_center_line calls_LDWS

lemma calls_overlay:
  "label_calls (overlay s) = []" "fcws_calls (overlay s) = []"
  "drawings (overlay s) = overlay s"
  by (cases "im s"; simp add: overlay_def calls_blocks)+


lemma resolved_all:
  "(\<forall>k. resolved k s = resolved k t) \<longleftrightarrow>
     Final_VLA_pt s = Final_VLA_pt t \<and> Final_DCA_pt s = Final_DCA_pt t \<and>
     Final_VPA_pt s = Final_VPA_pt t \<and> Final_DUA_d_pt s = Final_DUA_d_pt t \<and>
     Final_DUA_m_pt s = Final_DUA_m_pt t \<and> Final_DUA_u_pt s = Final_DUA_u_pt t \<and>
     Final_DUA_ut_pt s = Final_DUA_ut_pt t"
proof
  assume a: "\<forall>k. resolved k s = resolved k t"
  show "Final_VLA_pt s = Final_VLA_pt t \<and> Final_DCA_pt s = Final_DCA_pt t \<and>
     Final_VPA_pt s = Final_VPA_pt t \<and> Final_DUA_d_pt s = Final_DUA_d_pt t \<and>
     Final_DUA_m_pt s = Final_DUA_m_pt t \<and> Final_DUA_u_pt s = Final_DUA_u_pt t \<and>
     Final_DUA_ut_pt s = Final_DUA_ut_pt t"
    using a[rule_format, of VLA] a[rule_format, of DCA] a[rule_format, of VPA]
      a[rule_format, of DUA_d] a[rule_format, of DUA_m] a[rule_format, of DUA_u]
      a[rule_format, of DUA_ut]
    by simp
next
  assume a: "Final_VLA_pt s = Final_VLA_pt t \<and> Final_DCA_pt s = Final_DCA_pt t \<and>
     Final_VPA_pt s = Final_VPA_pt t \<and> Final_DUA_d_pt s = Final_DUA_d_pt t \<and>
     Final_DUA_m_pt s = Final_DUA_m_pt t \<and> Final_DUA_u_pt s = Final_DUA_u_pt t \<and>
     Final_DUA_ut_pt s = Final_DUA_ut_pt t"
  show "\<forall>k. resolved k s = resolved k t"
  proof
    fix k show "resolved k s = resolved k t" using a by (cases k) simp_all
  qed
qed

lemma overlay_cong:
  assumes "\<forall>k. resolved k s = resolved k t" "im s = im t"
  shows "overlay s = overlay t" "ADAS_Key_Points s = ADAS_Key_Points t"
  using assms
  by (simp_all add: resolved_all overlay_def vanish_line_def vanish_point_off right_line_def
      ADAS_Key_Points_def cong: option.case_cong)

lemma resolved_init: "resolved k (init_state c h) = ABSENT"
  by (cases k) (simp_all add: init_state_def)

lemma visited_items:
  "\<exists>b. (if boxes_truth pred_boxes \<and> show_boxes then reversed pred_boxes else [])
         = map (Boxes_getitem b) (visited show_boxes pred_boxes)"
  by (cases pred_boxes) (auto simp: boxes_truth_def reversed_def visited_def rev_map)

lemma plot_eq:
  assumes "(if boxes_truth pred_boxes \<and> show_boxes then reversed pred_boxes else []) = ds"
  shows "plot names bl conf0 labels show_boxes pred_boxes hist =
     (case label_loop names bl labels ds (init_state conf0 hist) of
        Inl e \<Rightarrow> Inl e
      | Inr s1 \<Rightarrow>
          (case fcws_loop names labels (ADAS_Key_Points s1) ds s1 of
             Inl e \<Rightarrow> Inl e
           | Inr s2 \<Rightarrow> Inr (s2\<lparr>calls := calls s2 @ overlay s2\<rparr>)))"
proof -
  have a: "\<And>s0. (if boxes_truth pred_boxes \<and> show_boxes
            then label_loop names bl labels (reversed pred_boxes) s0
            else Inr s0) =
          label_loop names bl labels ds s0"
    using assms by auto
  have b: "\<And>s1 kps. (if boxes_truth pred_boxes \<and> show_boxes
            then fcws_loop names labels kps (reversed pred_boxes) s1
            else Inr s1) =
          fcws_loop names labels kps ds s1"
    using assms by auto
  show ?thesis by (simp only: plot_def a b)
qed

lemma plot_summary:
  assumes "plot names bl conf0 labels show_boxes pred_boxes hist = Inr s"
  shows "\<exists>outs. length outs = length (visited show_boxes pred_boxes) \<and>
     label_calls (calls s) = zip (map (take 4) (visited show_boxes pred_boxes)) outs \<and>
     (\<forall>k. resolved k s = foldl (\<lambda>cur out. overwrite (slot k out) cur) ABSENT outs) \<and>
     HISTORY_VLA_pt s = foldl history_after hist outs \<and>
     im s = (if outs = [] then None else Some (im_shape (last outs))) \<and>
     fcws_calls (calls s) =
       (case HISTORY_VLA_pt s of None \<Rightarrow> []
        | Some h \<Rightarrow> map (\<lambda>d. (take 4 d, ADAS_Key_Points s, idx1 h)) (visited show_boxes pred_boxes)) \<and>
     drawings (calls s) = overlay s"
proof -
  let ?ds = "visited show_boxes pred_boxes"
  let ?s0 = "init_state conf0 hist"
  from visited_items obtain b where
    b: "(if boxes_truth pred_boxes \<and> show_boxes then reversed pred_boxes else [])
          = map (Boxes_getitem b) ?ds"
    by blast
  have "\<exists>s1 s2. label_loop names bl labels (map (Boxes_getitem b) ?ds) ?s0 = Inr s1 \<and>
      fcws_loop names labels (ADAS_Key_Points s1) (map (Boxes_getitem b) ?ds) s1 = Inr s2 \<and>
      s = s2\<lparr>calls := calls s2 @ overlay s2\<rparr>"
    using assms unfolding plot_eq[OF b] by (simp split: sum.splits)
  then obtain s1 s2 where
    s1: "label_loop names bl labels (map (Boxes_getitem b) ?ds) ?s0 = Inr s1" and
    s2: "fcws_loop names labels (ADAS_Key_Points s1) (map (Boxes_getitem b) ?ds) s1 = Inr s2" and
    s: "s = s2\<lparr>calls := calls s2 @ overlay s2\<rparr>"
    by blast
  from label_loop_effect[OF s1] obtain outs where outs:
    "length outs = length ?ds"
    "label_calls (calls s1) = label_calls (calls ?s0) @ zip (map (take 4) ?ds) outs"
    "fcws_calls (calls s1) = fcws_calls (calls ?s0)"
    "drawings (calls s1) = drawings (calls ?s0)"
    "\<forall>k. resolved k s1 = foldl (\<lambda>cur out. overwrite (slot k out) cur) (resolved k ?s0) outs"
    "HISTORY_VLA_pt s1 = foldl history_after (HISTORY_VLA_pt ?s0) outs"
    "im s1 = (if outs = [] then im ?s0 else Some (im_shape (last outs)))"
    by blast
  note f = fcws_loop_effect[OF s2]
  have c0: "calls ?s0 = []" "HISTORY_VLA_pt ?s0 = hist" "im ?s0 = None"
    by (simp_all add: init_state_def)
  have r: "\<forall>k. resolved k s = resolved k s2" "im s = im s2" "HISTORY_VLA_pt s = HISTORY_VLA_pt s2"
    by (simp_all add: s resolved_all)
  have r1: "\<forall>k. resolved k s = resolved k s1" "im s = im s1"
    using r f by simp_all
  have o: "overlay s2 = overlay s" "ADAS_Key_Points s1 = ADAS_Key_Points s"
    using overlay_cong[OF r(1,2)] overlay_cong[OF r1] by simp_all
  have cs: "calls s = calls s2 @ overlay s"
    unfolding o(1)[symmetric] by (simp add: s)
  show ?thesis
  proof (intro exI[of _ outs] conjI)
    show "length outs = length ?ds" by (rule outs)
    show "label_calls (calls s) = zip (map (take 4) ?ds) outs"
      using f outs(2) by (simp add: cs calls_append calls_overlay c0 calls_Nil)
    show "\<forall>k. resolved k s = foldl (\<lambda>cur out. overwrite (slot k out) cur) ABSENT outs"
      using r1(1) outs(5) by (simp add: resolved_init)
    show "HISTORY_VLA_pt s = foldl history_after hist outs"
      using r(3) f outs(6) by (simp add: c0)
    show "im s = (if outs = [] then None else Some (im_shape (last outs)))"
      using r1(2) outs(7) by (simp add: c0)
    show "fcws_calls (calls s) =
       (case HISTORY_VLA_pt s of None \<Rightarrow> []
        | Some h \<Rightarrow> map (\<lambda>d. (take 4 d, ADAS_Key_Points s, idx1 h)) ?ds)"
      using f outs(3) r(3) by (simp add: cs calls_append calls_overlay c0 calls_Nil o(2) cong: option.case_cong)
    show "drawings (calls s) = overlay s"
      using f outs(4) by (simp add: cs calls_append calls_overlay c0 calls_Nil)
  qed
qed

section \<open>Boxes: construction and normalized views\<close>

text \<open>
  Claim C8. A buffer whose row width (\<^verbatim>\<open>shape[-1]\<close>) is neither 6 nor 7 is refused with
  the assertion's error and no \<open>Boxes\<close> value; a buffer of width 6 or 7 is accepted, its
  data is the buffer with a leading axis added when it was one-dimensional (one row
  becomes a matrix of one row), and \<^verbatim>\<open>id\<close> is not \<^verbatim>\<open>None\<close> exactly when the width is 7.
\<close>

theorem Boxes_init_row_width:
  "(shape_last boxes \<noteq> 6 \<and> shape_last boxes \<noteq> 7 \<longrightarrow> Boxes_init boxes shp = Inl AssertionError) \<and>
   (shape_last boxes = 6 \<or> shape_last boxes = 7 \<longrightarrow>
      (\<exists>b. Boxes_init boxes shp = Inr b \<and> data b = add_axis boxes \<and> orig_shape b = shp \<and>
           (Boxes_id b \<noteq> None \<longleftrightarrow> shape_last boxes = 7))) \<and>
   add_axis (Arr1 xs) = Arr2 (length xs) [xs]"
  by (cases boxes) (auto simp: Boxes_init_def Let_def Boxes_id_def)

theorem Boxes_init_row_width_witness:
  "Boxes_init (Arr1 [1, 2, 3, 4, 5]) (480, 640) = Inl AssertionError \<and>
   (\<exists>b. Boxes_init (Arr1 [64, 48, 320, 240, 9 / 10, 0]) (480, 640) = Inr b \<and>
        data b = Arr2 6 [[64, 48, 320, 240, 9 / 10, 0]] \<and> Boxes_id b = None) \<and>
   (\<exists>b. Boxes_init (Arr2 7 [[64, 48, 320, 240, 3, 9 / 10, 0]]) (480, 640) = Inr b \<and>
        Boxes_id b \<noteq> None)"
  using Boxes_init_row_width[of "Arr1 [1, 2, 3, 4, 5]" "(480, 640)"]
    Boxes_init_row_width[of "Arr1 [64, 48, 320, 240, 9 / 10, 0]" "(480, 640)"]
    Boxes_init_row_width[of "Arr2 7 [[64, 48, 320, 240, 3, 9 / 10, 0]]" "(480, 640)"]
  by auto

text \<open>
  Claim C10. For boxes built from a well-formed buffer in a frame of height \<open>h > 0\<close> and
  width \<open>w > 0\<close>, scaling every row of \<^verbatim>\<open>xyxyn\<close> back (x by \<open>w\<close>, y by \<open>h\<close>) gives
  \<^verbatim>\<open>xyxy\<close>, and scaling every row of \<^verbatim>\<open>xywhn\<close> back gives \<^verbatim>\<open>xywh\<close>, exactly, the
  floats being read as rationals. \<^verbatim>\<open>ops.xyxy2xywh\<close> is any function that returns rows of
  width 4 on these boxes.
\<close>

theorem normalized_round_trip:
  assumes "Boxes_init boxes (h, w) = Inr b" "wf_ndarray boxes" "0 < h" "0 < w"
    and "list_all (\<lambda>r. length r = 4) (xyxy2xywh (Boxes_xyxy b))"
  shows "map (mul_wh (h, w)) (Boxes_xyxyn b) = Boxes_xyxy b \<and>
         map (mul_wh (h, w)) (Boxes_xywhn xyxy2xywh b) = Boxes_xywh xyxy2xywh b"
proof -
  have o: "orig_shape b = (h, w)"
    using assms(1) by (auto simp: Boxes_init_def Let_def split: if_splits)
  show ?thesis
    using map_div_mul_wh[OF Boxes_init_xyxy_width[OF assms(1,2)] assms(3,4)]
      map_div_mul_wh[OF assms(5,3,4)]
    by (simp add: Boxes_xyxyn_def Boxes_xywhn_def Boxes_xywh_def o)
qed

theorem normalized_round_trip_witness:
  "(\<exists>b. Boxes_init ex_buffer (480, 640) = Inr b \<and>
      Boxes_xyxyn b = [[1 / 10, 1 / 10, 1 / 2, 1 / 2]] \<and>
      map (mul_wh (480, 640)) (Boxes_xyxyn b) = [[64, 48, 320, 240]] \<and>
      Boxes_xywhn ex_xyxy2xywh b = [[3 / 10, 3 / 10, 2 / 5, 2 / 5]] \<and>
      map (mul_wh (480, 640)) (Boxes_xywhn ex_xyxy2xywh b) = [[192, 144, 256, 192]])"
proof -
  let ?b = "\<lparr>data = ex_buffer, orig_shape = (480, 640), is_track = False\<rparr>"
  have i: "Boxes_init ex_buffer (480, 640) = Inr ?b"
    by (simp add: Boxes_init_def ex_buffer_def)
  have x: "Boxes_xyxy ?b = [[64, 48, 320, 240]]"
    by (simp add: Boxes_xyxy_def ex_buffer_def)
  have y: "ex_xyxy2xywh [[64, 48, 320, 240]] = [[192, 144, 256, 192]]"
    by (simp add: ex_xyxy2xywh_def)
  have n: "Boxes_xyxyn ?b = [[1 / 10, 1 / 10, 1 / 2, 1 / 2]]"
    by (simp add: Boxes_xyxyn_def x div_wh_def)
  have m: "Boxes_xywhn ex_xyxy2xywh ?b = [[3 / 10, 3 / 10, 2 / 5, 2 / 5]]"
    by (simp add: Boxes_xywhn_def x y div_wh_def)
  have w: "wf_ndarray ex_buffer" by (simp add: ex_buffer_def)
  have l: "list_all (\<lambda>r. length r = 4) (ex_xyxy2xywh (Boxes_xyxy ?b))"
    by (simp add: x y)
  from normalized_round_trip[of ex_buffer 480 640 ?b ex_xyxy2xywh] i w l
  have "map (mul_wh (480, 640)) (Boxes_xyxyn ?b) = Boxes_xyxy ?b \<and>
        map (mul_wh (480, 640)) (Boxes_xywhn ex_xyxy2xywh ?b) = Boxes_xywh ex_xyxy2xywh ?b"
    by simp
  then show ?thesis
    using i n m x y by (simp add: Boxes_xywh_def)
qed

section \<open>Probs.top5\<close>

lemma top5_top:
  assumes "i \<in> set (top5 xs)" "j < length xs" "j \<notin> set (top5 xs)"
  shows "xs ! j \<le> xs ! i"
proof -
  let ?a = "argsort (map uminus xs)"
  let ?f = "\<lambda>i. map uminus xs ! i"
  have "sorted (map ?f (take 5 ?a @ drop 5 ?a))"
    using sorted_argsort[of "map uminus xs"] by simp
  then have *: "\<forall>x\<in>set (take 5 ?a). \<forall>y\<in>set (drop 5 ?a). ?f x \<le> ?f y"
    by (simp only: map_append sorted_append) auto
  have "j \<in> set ?a" using assms(2) by (simp add: set_argsort)
  then have "j \<in> set (take 5 ?a) \<union> set (drop 5 ?a)"
    by (simp only: set_append[symmetric] append_take_drop_id)
  then have j: "j \<in> set (drop 5 ?a)" using assms(3) by (simp add: top5_def)
  have i: "i < length xs" using assms(1) set_top5[of xs] by auto
  from * assms(1) j have "?f i \<le> ?f j" by (simp add: top5_def)
  then show ?thesis using i assms(2) by simp
qed

text \<open>
  Claim C9, as the code has it. The indices \<^verbatim>\<open>top5\<close> returns are in descending order of
  probability, equal probabilities allowed; there are five of them, or as many as there
  are classes when these are fewer; they are distinct indices of the vector, no index left
  out has a higher probability than one returned, and the order is strictly descending
  when the probabilities are pairwise distinct.
\<close>

theorem top5_descending_order:
  "descending xs (top5 xs) \<and> length (top5 xs) = min 5 (length xs) \<and>
   distinct (top5 xs) \<and> set (top5 xs) \<subseteq> {..<length xs} \<and>
   (\<forall>i\<in>set (top5 xs). \<forall>j<length xs. j \<notin> set (top5 xs) \<longrightarrow> xs ! j \<le> xs ! i) \<and>
   (distinct xs \<longrightarrow> strictly_descending xs (top5 xs))"
  using top5_descending[of xs] length_top5[of xs] distinct_top5[of xs] set_top5[of xs]
    top5_top[of _ xs] top5_strict[of xs]
  by (auto simp: descending_def strictly_descending_def)

text \<open>
  Claim C9 as it is stated asks for a strictly descending order. Two classes of
  probability one half each: the order returned is not strict.
\<close>

theorem top5_ties_counterexample:
  "top5 [1 / 2, 1 / 2] = [0, 1] \<and> \<not> strictly_descending [1 / 2, 1 / 2] (top5 [1 / 2, 1 / 2])"
  by (simp add: top5_def argsort_def strictly_descending_def)

theorem top5_descending_order_witness:
  "top5 [1 / 10, 3 / 10, 5 / 100, 2 / 10, 15 / 100, 12 / 100, 8 / 100] = [1, 3, 4, 5, 0] \<and>
   strictly_descending [1 / 10, 3 / 10, 5 / 100, 2 / 10, 15 / 100, 12 / 100, 8 / 100]
     (top5 [1 / 10, 3 / 10, 5 / 100, 2 / 10, 15 / 100, 12 / 100, 8 / 100]) \<and>
   length (top5 [7 / 10, 3 / 10]) = 2"
  using top5_descending_order[of "[1 / 10, 3 / 10, 5 / 100, 2 / 10, 15 / 100, 12 / 100, 8 / 100]"]
    top5_descending_order[of "[7 / 10, 3 / 10]"]
  by (simp add: top5_def argsort_def)

section \<open>Results.plot: what a run leaves behind\<close>

lemma returnsD: "returns r P \<Longrightarrow> \<exists>s. r = Inr s \<and> P s"
  by (cases r) (simp_all add: returns_def)

lemma returnsI: "r = Inr s \<Longrightarrow> P s \<Longrightarrow> returns r P"
  by (simp add: returns_def)

lemma foldr_overwrite_lowest:
  assumes "i < length xs" "idx0 (slot k (xs ! i)) \<noteq> 9999"
    "\<forall>j<i. idx0 (slot k (xs ! j)) = 9999"
  shows "foldr (\<lambda>out cur. overwrite (slot k out) cur) xs c = slot k (xs ! i)"
  using assms
proof (induction xs arbitrary: i)
  case Nil
  then show ?case by simp
next
  case (Cons x xs)
  show ?case
  proof (cases i)
    case 0
    with Cons.prems show ?thesis by (simp add: overwrite_def)
  next
    case (Suc n)
    with Cons.prems have x: "idx0 (slot k x) = 9999" by auto
    from Suc Cons.prems have "\<forall>j<n. idx0 (slot k (xs ! j)) = 9999" by auto
    with Cons.IH[of n] Suc Cons.prems x show ?thesis by (simp add: overwrite_def)
  qed
qed

lemma foldr_overwrite_none:
  assumes "\<not> list_ex (\<lambda>out. idx0 (slot k out) \<noteq> 9999) xs"
  shows "foldr (\<lambda>out cur. overwrite (slot k out) cur) xs c = c"
  using assms by (induction xs) (simp_all add: overwrite_def)

lemma foldr_overwrite_present:
  assumes "idx0 c = 9999"
  shows "idx0 (foldr (\<lambda>out cur. overwrite (slot k out) cur) xs c) \<noteq> 9999 \<longleftrightarrow>
         list_ex (\<lambda>out. idx0 (slot k out) \<noteq> 9999) xs"
  using assms by (induction xs) (simp_all add: overwrite_def)

lemma overwrite_simps:
  "idx0 c \<noteq> 9999 \<Longrightarrow> overwrite c cur = c"
  "idx0 c = 9999 \<Longrightarrow> overwrite c cur = cur"
  by (simp_all add: overwrite_def)

lemma foldr_history:
  "foldr (\<lambda>out h. history_after h out) xs h =
     (if list_ex (\<lambda>out. idx0 (slot VLA out) \<noteq> 9999) xs
      then Some (foldr (\<lambda>out cur. overwrite (slot VLA out) cur) xs c) else h)"
  by (induction xs) (simp_all add: overwrite_simps history_after_def)

lemma idx0_ABSENT: "idx0 ABSENT = 9999"
  by (simp add: ABSENT_def)

lemma plot_run:
  assumes "plot names bl conf0 labels show_boxes pred_boxes hist = Inr s"
  shows "length (results_by_index s) = length (visited show_boxes pred_boxes)"
    and "map fst (label_calls (calls s)) = map (take 4) (visited show_boxes pred_boxes)"
    and "resolved k s = foldr (\<lambda>out cur. overwrite (slot k out) cur) (results_by_index s) ABSENT"
    and "HISTORY_VLA_pt s = foldr (\<lambda>out h. history_after h out) (results_by_index s) hist"
    and "im s = (case results_by_index s of [] \<Rightarrow> None | out # outs \<Rightarrow> Some (im_shape out))"
    and "fcws_calls (calls s) =
       (case HISTORY_VLA_pt s of None \<Rightarrow> []
        | Some h \<Rightarrow> map (\<lambda>d. (take 4 d, ADAS_Key_Points s, idx1 h)) (visited show_boxes pred_boxes))"
    and "drawings (calls s) = overlay s"
proof -
  from plot_summary[OF assms] obtain outs where outs:
    "length outs = length (visited show_boxes pred_boxes)"
    "label_calls (calls s) = zip (map (take 4) (visited show_boxes pred_boxes)) outs"
    "\<forall>k. resolved k s = foldl (\<lambda>cur out. overwrite (slot k out) cur) ABSENT outs"
    "HISTORY_VLA_pt s = foldl history_after hist outs"
    "im s = (if outs = [] then None else Some (im_shape (last outs)))"
    "fcws_calls (calls s) =
       (case HISTORY_VLA_pt s of None \<Rightarrow> []
        | Some h \<Rightarrow> map (\<lambda>d. (take 4 d, ADAS_Key_Points s, idx1 h)) (visited show_boxes pred_boxes))"
    "drawings (calls s) = overlay s"
    by blast
  have r: "results_by_index s = rev outs"
    by (simp add: results_by_index_def outs(1,2))
  show "length (results_by_index s) = length (visited show_boxes pred_boxes)"
    by (simp add: r outs(1))
  show "map fst (label_calls (calls s)) = map (take 4) (visited show_boxes pred_boxes)"
    by (simp add: outs(1,2))
  show "resolved k s = foldr (\<lambda>out cur. overwrite (slot k out) cur) (results_by_index s) ABSENT"
    by (simp add: r outs(3) foldl_conv_foldr)
  show "HISTORY_VLA_pt s = foldr (\<lambda>out h. history_after h out) (results_by_index s) hist"
    by (simp add: r outs(4) foldl_conv_foldr)
  show "im s = (case results_by_index s of [] \<Rightarrow> None | out # outs \<Rightarrow> Some (im_shape out))"
    by (cases outs rule: rev_cases) (simp_all add: r outs(5))
  show "fcws_calls (calls s) =
       (case HISTORY_VLA_pt s of None \<Rightarrow> []
        | Some h \<Rightarrow> map (\<lambda>d. (take 4 d, ADAS_Key_Points s, idx1 h)) (visited show_boxes pred_boxes))"
    by (rule outs)
  show "drawings (calls s) = overlay s" by (rule outs)
qed

lemma visited_xyxy:
  "show_boxes \<Longrightarrow> map (take 4) (visited show_boxes (Some b)) = rev (Boxes_xyxy b)"
  by (simp add: visited_def Boxes_xyxy_def rev_map)

section \<open>The landmark resolver\<close>

text \<open>
  Claim C1. After a call of \<^verbatim>\<open>plot\<close> that returns, the \<^verbatim>\<open>box_label\<close> calls made are one
  per detection when boxes are shown, the call listed at index \<open>i\<close> being the one for
  detection \<open>i\<close>. For each of the seven kinds on its own: when no call supplied the kind
  the resolved rectangle is the sentinel, and otherwise it is the rectangle returned, in
  the slot of that kind, by the call for the detection of lowest index whose slot is not
  absent.
\<close>

theorem lowest_index_wins:
  assumes "plot names bl conf0 labels show_boxes pred_boxes hist = Inr s"
  shows "(show_boxes \<longrightarrow> (\<forall>b. pred_boxes = Some b \<longrightarrow>
            rev (map fst (label_calls (calls s))) = Boxes_xyxy b \<and>
            length (results_by_index s) = length (Boxes_xyxy b))) \<and>
         (\<forall>k. \<not> supplied k s \<longrightarrow> resolved k s = ABSENT) \<and>
         (\<forall>k i. i < length (results_by_index s) \<and>
                idx0 (slot k (results_by_index s ! i)) \<noteq> 9999 \<and>
                (\<forall>j<i. idx0 (slot k (results_by_index s ! j)) = 9999) \<longrightarrow>
                resolved k s = slot k (results_by_index s ! i))"
proof (intro conjI allI impI)
  fix b assume sb: "show_boxes" and pb: "pred_boxes = Some b"
  show "rev (map fst (label_calls (calls s))) = Boxes_xyxy b"
    using plot_run(2)[OF assms] visited_xyxy[OF sb, of b] by (simp add: pb)
  show "length (results_by_index s) = length (Boxes_xyxy b)"
    using plot_run(1)[OF assms] arg_cong[OF visited_xyxy[OF sb, of b], of length] by (simp add: pb)
next
  fix k assume "\<not> supplied k s"
  then show "resolved k s = ABSENT"
    using foldr_overwrite_none[of k "results_by_index s" ABSENT] plot_run(3)[OF assms, of k]
    by (simp add: supplied_def)
next
  fix k i
  assume "i < length (results_by_index s) \<and>
                idx0 (slot k (results_by_index s ! i)) \<noteq> 9999 \<and>
                (\<forall>j<i. idx0 (slot k (results_by_index s ! j)) = 9999)"
  then show "resolved k s = slot k (results_by_index s ! i)"
    using foldr_overwrite_lowest[of i "results_by_index s" k ABSENT] plot_run(3)[OF assms, of k]
    by simp
qed

theorem lowest_index_wins_witness:
  "returns (plot ex_names (ex_box_label (480, 640)) True True True (ex_boxes ex_tie) None)
     (\<lambda>s. map DCA_pt (results_by_index s) = [(100, 400, 340, 420), ABSENT, (200, 400, 440, 420)] \<and>
          Final_DCA_pt s = (100, 400, 340, 420) \<and> Final_VLA_pt s = ABSENT)"
proof -
  have "returns (plot ex_names (ex_box_label (480, 640)) True True True (ex_boxes ex_tie) None)
     (\<lambda>s. map DCA_pt (results_by_index s) = [(100, 400, 340, 420), ABSENT, (200, 400, 440, 420)] \<and>
          \<not> supplied VLA s)"
    by code_simp
  then obtain s where s: "plot ex_names (ex_box_label (480, 640)) True True True (ex_boxes ex_tie) None = Inr s"
    and r: "map DCA_pt (results_by_index s) = [(100, 400, 340, 420), ABSENT, (200, 400, 440, 420)]"
    and v: "\<not> supplied VLA s"
    by (auto dest: returnsD)
  from r have l: "length (results_by_index s) = 3" 
    by (metis length_map length_Cons list.size(3) numeral_3_eq_3)
  from r l have d: "DCA_pt (results_by_index s ! 0) = (100, 400, 340, 420)"
    by (metis nth_map nth_Cons_0 zero_less_numeral)
  from lowest_index_wins[OF s] v have "Final_VLA_pt s = ABSENT"
    by (metis resolved.simps(1))
  moreover from lowest_index_wins[OF s] l d have "Final_DCA_pt s = (100, 400, 340, 420)"
    by (auto dest!: conjunct2 spec[of _ DCA] spec[of _ "0::nat"])
  ultimately show ?thesis using s r by (auto intro: returnsI)
qed

section \<open>The vanish-line history and the FCW pass\<close>

lemma plot_history:
  assumes "plot names bl conf0 labels show_boxes pred_boxes hist = Inr s"
  shows "idx0 (Final_VLA_pt s) \<noteq> 9999 \<longleftrightarrow> supplied VLA s"
    and "HISTORY_VLA_pt s = (if supplied VLA s then Some (Final_VLA_pt s) else hist)"
proof -
  show "idx0 (Final_VLA_pt s) \<noteq> 9999 \<longleftrightarrow> supplied VLA s"
    using plot_run(3)[OF assms, of VLA]
      foldr_overwrite_present[OF idx0_ABSENT, of VLA "results_by_index s"]
    by (simp add: supplied_def)
  show "HISTORY_VLA_pt s = (if supplied VLA s then Some (Final_VLA_pt s) else hist)"
    using plot_run(3)[OF assms, of VLA] plot_run(4)[OF assms]
      foldr_history[of "results_by_index s" hist ABSENT]
    by (simp add: supplied_def)
qed

lemma plot_fcws_rows:
  assumes "plot names bl conf0 labels show_boxes pred_boxes hist = Inr s"
  shows "fcws_rows s =
     (case HISTORY_VLA_pt s of None \<Rightarrow> []
      | Some h \<Rightarrow> replicate (length (visited show_boxes pred_boxes)) (idx1 h))"
  using plot_run(6)[OF assms]
  by (simp add: fcws_rows_def map_replicate_const comp_def split: option.splits)

lemma plot_no_detection:
  assumes "plot names bl conf0 labels show_boxes pred_boxes hist = Inr s"
    and "visited show_boxes pred_boxes = []"
  shows "im s = None" "resolved k s = ABSENT" "drawings (calls s) = []"
proof -
  have r: "results_by_index s = []"
    using plot_run(1)[OF assms(1)] assms(2) by simp
  show i: "im s = None" using plot_run(5)[OF assms(1)] by (simp add: r)
  show "resolved k s = ABSENT" using plot_run(3)[OF assms(1), of k] by (simp add: r)
  have a: "\<And>k. resolved k s = ABSENT" using plot_run(3)[OF assms(1)] by (simp add: r)
  have "overlay s = []"
    using a[of VLA] a[of DCA] a[of DUA_d] a[of DUA_m] a[of DUA_u] a[of DUA_ut]
    by (simp add: overlay_def i vanish_line_eq left_middle_block_eq right_line_def
        right_segment_eq vanish_point_off idx0_ABSENT)
  then show "drawings (calls s) = []" using plot_run(7)[OF assms(1)] by simp
qed

lemma plot_some_detection:
  assumes "plot names bl conf0 labels show_boxes pred_boxes hist = Inr s"
    and "visited show_boxes pred_boxes \<noteq> []"
  shows "im s = Some (im_shape (results_by_index s ! 0))"
proof -
  have "results_by_index s \<noteq> []"
    using plot_run(1)[OF assms(1)] assms(2) by auto
  then show ?thesis using plot_run(5)[OF assms(1)]
    by (cases "results_by_index s") simp_all
qed

lemma plot_resolved_frame:
  assumes "plot names bl conf0 labels show_boxes pred_boxes hist = Inr s"
    and "idx0 (resolved k s) \<noteq> 9999"
  shows "im s = Some (im_shape (results_by_index s ! 0))"
proof -
  have "visited show_boxes pred_boxes \<noteq> []"
    using plot_no_detection(2)[OF assms(1), of k] assms(2) by (auto simp: idx0_ABSENT)
  then show ?thesis by (rule plot_some_detection[OF assms(1)])
qed

text \<open>
  Claim C2. A call of \<^verbatim>\<open>plot\<close> in which some detection supplies a vanish line leaves
  \<^verbatim>\<open>HISTORY_VLA_pt\<close> equal to the resolved vanish line of the frame; a call in which none
  does leaves it as it was. So for three calls in a row, the history handed on from one
  to the next, where the first resolves a vanish line, the second resolves none and the
  third resolves one again: every \<^verbatim>\<open>box_FCWS_label\<close> call of the second frame is given
  the second coordinate of the first frame's vanish line as its reference row, and every
  one of the third frame that of the third frame's.
\<close>

theorem history_tracks_resolved_VLA:
  "(plot names bl conf0 labels show_boxes pred_boxes hist = Inr s \<longrightarrow>
      (supplied VLA s \<longrightarrow>
         idx0 (Final_VLA_pt s) \<noteq> 9999 \<and> HISTORY_VLA_pt s = Some (Final_VLA_pt s)) \<and>
      (\<not> supplied VLA s \<longrightarrow> Final_VLA_pt s = ABSENT \<and> HISTORY_VLA_pt s = hist)) \<and>
   (plot names1 bl1 conf1 labels1 show1 boxes1 hist0 = Inr s1 \<and>
    plot names2 bl2 conf2 labels2 show2 boxes2 (HISTORY_VLA_pt s1) = Inr s2 \<and>
    plot names3 bl3 conf3 labels3 show3 boxes3 (HISTORY_VLA_pt s2) = Inr s3 \<and>
    idx0 (Final_VLA_pt s1) \<noteq> 9999 \<and> idx0 (Final_VLA_pt s2) = 9999 \<and>
    idx0 (Final_VLA_pt s3) \<noteq> 9999 \<longrightarrow>
      fcws_rows s2 = replicate (length (visited show2 boxes2)) (idx1 (Final_VLA_pt s1)) \<and>
      fcws_rows s3 = replicate (length (visited show3 boxes3)) (idx1 (Final_VLA_pt s3)))"
proof (intro conjI impI)
  assume p: "plot names bl conf0 labels show_boxes pred_boxes hist = Inr s"
  { assume "supplied VLA s"
    then show "idx0 (Final_VLA_pt s) \<noteq> 9999" "HISTORY_VLA_pt s = Some (Final_VLA_pt s)"
      using plot_history[OF p] by simp_all }
  { assume n: "\<not> supplied VLA s"
    then show "HISTORY_VLA_pt s = hist" using plot_history(2)[OF p] by simp
    from n show "Final_VLA_pt s = ABSENT"
      using plot_run(3)[OF p, of VLA] foldr_overwrite_none[of VLA "results_by_index s" ABSENT]
      by (simp add: supplied_def) }
next
  assume a: "plot names1 bl1 conf1 labels1 show1 boxes1 hist0 = Inr s1 \<and>
    plot names2 bl2 conf2 labels2 show2 boxes2 (HISTORY_VLA_pt s1) = Inr s2 \<and>
    plot names3 bl3 conf3 labels3 show3 boxes3 (HISTORY_VLA_pt s2) = Inr s3 \<and>
    idx0 (Final_VLA_pt s1) \<noteq> 9999 \<and> idx0 (Final_VLA_pt s2) = 9999 \<and>
    idx0 (Final_VLA_pt s3) \<noteq> 9999"
  then have p1: "plot names1 bl1 conf1 labels1 show1 boxes1 hist0 = Inr s1"
    and p2: "plot names2 bl2 conf2 labels2 show2 boxes2 (HISTORY_VLA_pt s1) = Inr s2"
    and p3: "plot names3 bl3 conf3 labels3 show3 boxes3 (HISTORY_VLA_pt s2) = Inr s3"
    and v: "idx0 (Final_VLA_pt s1) \<noteq> 9999" "idx0 (Final_VLA_pt s2) = 9999"
      "idx0 (Final_VLA_pt s3) \<noteq> 9999"
    by simp_all
  have h1: "HISTORY_VLA_pt s1 = Some (Final_VLA_pt s1)"
    using plot_history[OF p1] v(1) by simp
  have h2: "HISTORY_VLA_pt s2 = Some (Final_VLA_pt s1)"
    using plot_history[OF p2] v(2) h1 by simp
  have h3: "HISTORY_VLA_pt s3 = Some (Final_VLA_pt s3)"
    using plot_history[OF p3] v(3) by simp
  show "fcws_rows s2 = replicate (length (visited show2 boxes2)) (idx1 (Final_VLA_pt s1))"
    using plot_fcws_rows[OF p2] by (simp add: h2)
  show "fcws_rows s3 = replicate (length (visited show3 boxes3)) (idx1 (Final_VLA_pt s3))"
    using plot_fcws_rows[OF p3] by (simp add: h3)
qed

theorem history_tracks_resolved_VLA_witness:
  "returns (plot ex_names (ex_box_label (480, 640)) True True True (ex_boxes ex_frame1) None)
     (\<lambda>s1. HISTORY_VLA_pt s1 = Some (0, 300, 640, 310) \<and>
       returns (plot ex_names (ex_box_label (480, 640)) True True True (ex_boxes ex_frame2)
                  (HISTORY_VLA_pt s1))
         (\<lambda>s2. HISTORY_VLA_pt s2 = Some (0, 300, 640, 310) \<and> fcws_rows s2 = [300] \<and>
           returns (plot ex_names (ex_box_label (480, 640)) True True True (ex_boxes ex_frame3)
                      (HISTORY_VLA_pt s2))
             (\<lambda>s3. HISTORY_VLA_pt s3 = Some (0, 280, 640, 290) \<and> fcws_rows s3 = [280, 280])))"
proof -
  let ?bl = "ex_box_label (480, 640)"
  have "returns (plot ex_names ?bl True True True (ex_boxes ex_frame1) None)
     (\<lambda>s1. supplied VLA s1 \<and> Final_VLA_pt s1 = (0, 300, 640, 310) \<and>
       returns (plot ex_names ?bl True True True (ex_boxes ex_frame2) (HISTORY_VLA_pt s1))
         (\<lambda>s2. \<not> supplied VLA s2 \<and> length (visited True (ex_boxes ex_frame2)) = 1 \<and>
           returns (plot ex_names ?bl True True True (ex_boxes ex_frame3) (HISTORY_VLA_pt s2))
             (\<lambda>s3. supplied VLA s3 \<and> Final_VLA_pt s3 = (0, 280, 640, 290) \<and>
                   length (visited True (ex_boxes ex_frame3)) = 2)))"
    by code_simp
  then obtain s1 s2 s3 where
    p1: "plot ex_names ?bl True True True (ex_boxes ex_frame1) None = Inr s1" and
    p2: "plot ex_names ?bl True True True (ex_boxes ex_frame2) (HISTORY_VLA_pt s1) = Inr s2" and
    p3: "plot ex_names ?bl True True True (ex_boxes ex_frame3) (HISTORY_VLA_pt s2) = Inr s3" and
    f: "supplied VLA s1" "Final_VLA_pt s1 = (0, 300, 640, 310)" "\<not> supplied VLA s2"
      "length (visited True (ex_boxes ex_frame2)) = 1"
      "supplied VLA s3" "Final_VLA_pt s3 = (0, 280, 640, 290)"
      "length (visited True (ex_boxes ex_frame3)) = 2"
    by (auto dest!: returnsD)
  note t = history_tracks_resolved_VLA
  have h1: "HISTORY_VLA_pt s1 = Some (0, 300, 640, 310)"
    using t[THEN conjunct1, rule_format, OF p1] f(1,2) by simp
  have a2: "Final_VLA_pt s2 = ABSENT" "HISTORY_VLA_pt s2 = Some (0, 300, 640, 310)"
    using t[THEN conjunct1, rule_format, OF p2] f(3) h1 by simp_all
  have h3: "HISTORY_VLA_pt s3 = Some (0, 280, 640, 290)"
    using t[THEN conjunct1, rule_format, OF p3] f(5,6) by simp
  have "fcws_rows s2 = replicate (length (visited True (ex_boxes ex_frame2))) (idx1 (Final_VLA_pt s1)) \<and>
      fcws_rows s3 = replicate (length (visited True (ex_boxes ex_frame3))) (idx1 (Final_VLA_pt s3))"
    using t[THEN conjunct2, rule_format, of ex_names ?bl True True True "ex_boxes ex_frame1" None s1
        ex_names ?bl True True True "ex_boxes ex_frame2" s2
        ex_names ?bl True True True "ex_boxes ex_frame3" s3] p1 p2 p3 f(2,6) a2(1)
    by (simp add: idx0_ABSENT)
  then have r: "fcws_rows s2 = [300]" "fcws_rows s3 = [280, 280]"
    by (simp_all add: f numeral_2_eq_2)
  show ?thesis
    using p1 p2 p3 h1 a2(2) h3 r by (simp add: returns_def)
qed

text \<open>
  Claim C4, as the code has it. When \<^verbatim>\<open>HISTORY_VLA_pt\<close> is \<^verbatim>\<open>None\<close> after the landmark
  pass, \<^verbatim>\<open>box_FCWS_label\<close> is not called at all. When it holds a rectangle, the calls are
  one per row the loop visits, in the order visited, each with the row's rectangle, the
  key points of the frame and the second coordinate of the history as reference row; the
  rows visited are all detections, last first, when boxes are shown, and none when boxes
  are not shown or the frame has no boxes.
\<close>

theorem fcws_pass_gate:
  assumes "plot names bl conf0 labels show_boxes pred_boxes hist = Inr s"
  shows "(HISTORY_VLA_pt s = None \<longrightarrow> fcws_calls (calls s) = []) \<and>
         (\<forall>h. HISTORY_VLA_pt s = Some h \<longrightarrow>
              fcws_calls (calls s) =
                map (\<lambda>d. (take 4 d, ADAS_Key_Points s, idx1 h)) (visited show_boxes pred_boxes)) \<and>
         (show_boxes \<longrightarrow> (\<forall>b. pred_boxes = Some b \<longrightarrow>
              map (take 4) (visited show_boxes pred_boxes) = rev (Boxes_xyxy b))) \<and>
         (\<not> show_boxes \<or> pred_boxes = None \<longrightarrow> visited show_boxes pred_boxes = [])"
  using plot_run(6)[OF assms] visited_xyxy[of show_boxes]
  by (auto simp: visited_def split: option.splits)

theorem fcws_pass_gate_witness:
  "returns (plot ex_names (ex_box_label (480, 640)) True True True (ex_boxes ex_frame2) None)
     (\<lambda>s. HISTORY_VLA_pt s = None \<and> fcws_calls (calls s) = []) \<and>
   returns (plot ex_names (ex_box_label (480, 640)) True True True (ex_boxes ex_frame1) None)
     (\<lambda>s. HISTORY_VLA_pt s = Some (0, 300, 640, 310) \<and>
          map (\<lambda>(xyxy, kps, row). (xyxy, row)) (fcws_calls (calls s)) =
            [([50, 60, 70, 80], 300), ([0, 300, 640, 310], 300)])"
proof -
  let ?bl = "ex_box_label (480, 640)"
  have "returns (plot ex_names ?bl True True True (ex_boxes ex_frame2) None)
          (\<lambda>s. HISTORY_VLA_pt s = None)"
    and "returns (plot ex_names ?bl True True True (ex_boxes ex_frame1) None)
          (\<lambda>s. HISTORY_VLA_pt s = Some (0, 300, 640, 310))"
    by code_simp+
  then obtain s2 s1 where
    p2: "plot ex_names ?bl True True True (ex_boxes ex_frame2) None = Inr s2" and
    h2: "HISTORY_VLA_pt s2 = None" and
    p1: "plot ex_names ?bl True True True (ex_boxes ex_frame1) None = Inr s1" and
    h1: "HISTORY_VLA_pt s1 = Some (0, 300, 640, 310)"
    by (auto dest!: returnsD)
  have v: "visited True (ex_boxes ex_frame1) = [[50, 60, 70, 80, 8 / 10, 0], [0, 300, 640, 310, 9 / 10, 1]]"
    by (simp add: visited_def ex_boxes_def ex_frame1_def)
  have "fcws_calls (calls s2) = []"
    using fcws_pass_gate[OF p2] h2 by simp
  moreover have "map (\<lambda>(xyxy, kps, row). (xyxy, row)) (fcws_calls (calls s1)) =
            [([50, 60, 70, 80], 300), ([0, 300, 640, 310], 300)]"
    using fcws_pass_gate[OF p1] h1 by (simp add: v)
  ultimately show ?thesis using p1 p2 h1 h2 by (simp add: returns_def)
qed

text \<open>
  Claim C4 as it is stated asks for one call per detection whenever the history is
  present. With \<^verbatim>\<open>boxes=False\<close> the history is present and the frame has one detection,
  and \<^verbatim>\<open>box_FCWS_label\<close> is not called.
\<close>

theorem fcws_boxes_hidden_counterexample:
  "plot ex_names (ex_box_label (480, 640)) True True False (ex_boxes ex_frame2)
     (Some (0, 300, 640, 310)) = Inr (init_state True (Some (0, 300, 640, 310))) \<and>
   HISTORY_VLA_pt (init_state True (Some (0, 300, 640, 310))) = Some (0, 300, 640, 310) \<and>
   fcws_calls (calls (init_state True (Some (0, 300, 640, 310)))) = [] \<and>
   length ex_frame2 = 1"
  by code_simp

section \<open>The overlay\<close>

text \<open>
  Claim C5, as the code has it. The centre line is drawn inside \<^verbatim>\<open>if im is not None\<close>, and
  \<^verbatim>\<open>im\<close> is what the last \<^verbatim>\<open>box_label\<close> call returned. When the landmark loop visits no
  detection (no boxes, an empty set of boxes, or \<^verbatim>\<open>boxes=False\<close>), \<^verbatim>\<open>im\<close> stays \<^verbatim>\<open>None\<close>
  and nothing at all is drawn. When it visits one at least, \<^verbatim>\<open>im\<close> is the frame returned
  by the call for detection 0, of height \<open>h\<close> and width \<open>w\<close>, and the vertical segment
  from \<open>(int(w/2), int(0.80 h))\<close> to \<open>(int(w/2), int(0.99 h))\<close> is drawn.
\<close>

theorem center_line_needs_frame:
  assumes "plot names bl conf0 labels show_boxes pred_boxes hist = Inr s"
  shows "(visited show_boxes pred_boxes = [] \<longrightarrow> im s = None \<and> drawings (calls s) = []) \<and>
         (visited show_boxes pred_boxes \<noteq> [] \<longrightarrow>
            (\<exists>h w. im_shape (results_by_index s ! 0) = (h, w) \<and> im s = Some (h, w) \<and>
               Cv_line (py_int (of_int w / 2), py_int (of_int h * (80 / 100)))
                 (py_int (of_int w / 2), py_int (of_int h * (99 / 100))) [255, 255, 0] 2
               \<in> set (drawings (calls s))))"
proof (intro conjI impI)
  assume "visited show_boxes pred_boxes = []"
  then show "im s = None" "drawings (calls s) = []"
    using plot_no_detection[OF assms] by simp_all
next
  assume v: "visited show_boxes pred_boxes \<noteq> []"
  obtain h w where hw: "im_shape (results_by_index s ! 0) = (h, w)"
    by (cases "im_shape (results_by_index s ! 0)") simp
  have i: "im s = Some (h, w)"
    using plot_some_detection[OF assms v] hw by simp
  have "Cv_line (py_int (of_int w / 2), py_int (of_int h * (80 / 100)))
          (py_int (of_int w / 2), py_int (of_int h * (99 / 100))) [255, 255, 0] 2
        \<in> set (overlay s)"
    by (simp add: overlay_def i center_line_eq)
  then show "\<exists>h w. im_shape (results_by_index s ! 0) = (h, w) \<and> im s = Some (h, w) \<and>
               Cv_line (py_int (of_int w / 2), py_int (of_int h * (80 / 100)))
                 (py_int (of_int w / 2), py_int (of_int h * (99 / 100))) [255, 255, 0] 2
               \<in> set (drawings (calls s))"
    using hw i plot_run(7)[OF assms] by simp
qed

theorem center_line_needs_frame_witness:
  "returns (plot ex_names (ex_box_label (480, 640)) True True True (ex_boxes ex_frame2) None)
     (\<lambda>s. im s = Some (480, 640) \<and>
          Cv_line (320, 384) (320, 475) [255, 255, 0] 2 \<in> set (drawings (calls s))) \<and>
   returns (plot ex_names (ex_box_label (480, 640)) True True True (ex_boxes []) None)
     (\<lambda>s. im s = None \<and> drawings (calls s) = [])"
proof -
  let ?bl = "ex_box_label (480, 640)"
  have "returns (plot ex_names ?bl True True True (ex_boxes ex_frame2) None)
          (\<lambda>s. im_shape (results_by_index s ! 0) = (480, 640))"
    and "returns (plot ex_names ?bl True True True (ex_boxes []) None) (\<lambda>s. True)"
    by code_simp+
  then obtain s t where
    p: "plot ex_names ?bl True True True (ex_boxes ex_frame2) None = Inr s" and
    f: "im_shape (results_by_index s ! 0) = (480, 640)" and
    q: "plot ex_names ?bl True True True (ex_boxes []) None = Inr t"
    by (auto dest!: returnsD)
  have v: "visited True (ex_boxes ex_frame2) \<noteq> []" "visited True (ex_boxes []) = []"
    by (simp_all add: visited_def ex_boxes_def ex_frame2_def)
  have c: "py_int (of_int 640 / 2) = 320" "py_int (of_int 480 * (80 / 100)) = 384"
    "py_int (of_int 480 * (99 / 100)) = 475"
    by code_simp+
  have "im s = Some (480, 640) \<and>
          Cv_line (320, 384) (320, 475) [255, 255, 0] 2 \<in> set (drawings (calls s))"
    using center_line_needs_frame[OF p] v(1) f c by auto
  moreover have "im t = None \<and> drawings (calls t) = []"
    using center_line_needs_frame[OF q] v(2) by simp
  ultimately show ?thesis using p q by (simp add: returns_def)
qed

text \<open>
  Claim C5 as it is stated asks for the centre line in every call. No boxes, an empty set
  of boxes, and one detection with \<^verbatim>\<open>boxes=False\<close>: each call returns with no call made,
  so without the centre line.
\<close>

theorem center_line_no_detection_counterexample:
  "plot ex_names (ex_box_label (480, 640)) True True True None None = Inr (init_state True None) \<and>
   plot ex_names (ex_box_label (480, 640)) True True True (ex_boxes []) None
     = Inr (init_state True None) \<and>
   plot ex_names (ex_box_label (480, 640)) True True False (ex_boxes ex_frame2) None
     = Inr (init_state True None) \<and>
   calls (init_state True None) = []"
  by code_simp

lemma overlay_polylines:
  "overlay s =
     vanish_line s @
     spec_polyline left_middle_segments (lane_landmarks s) @
     spec_polyline right_segments (lane_landmarks s) @
     (case im s of None \<Rightarrow> [] | Some shp \<Rightarrow> center_line shp @ LDWS shp (Final_DCA_pt s))"
  by (simp add: overlay_def spec_polyline_def lane_landmarks_def left_middle_block_eq
      right_line_def right_segment_eq vanish_point_off left_middle_segments_def
      right_segments_def DRAW_RIGHT_LINE_def split del: if_split cong: if_cong)

text \<open>
  Claim C6. The drawing calls of a run are the vanish line, then the left and middle
  polyline, then the right polyline, then the centre line and the caption; each polyline
  runs through the five lane landmarks in order, and each of its segments is drawn when
  its own two landmarks are resolved and skipped otherwise, whatever the other landmarks
  are. With the near and the far landmark alone no segment is drawn; with all but the
  middle landmark the segments 1 to 2 and 4 to 5 are drawn and the two touching the
  middle landmark are not.
\<close>

theorem segments_gated_independently:
  assumes "plot names bl conf0 labels show_boxes pred_boxes hist = Inr s"
  shows "drawings (calls s) =
           vanish_line s @
           spec_polyline left_middle_segments (lane_landmarks s) @
           spec_polyline right_segments (lane_landmarks s) @
           (case im s of None \<Rightarrow> [] | Some shp \<Rightarrow> center_line shp @ LDWS shp (Final_DCA_pt s)) \<and>
         (\<forall>A B. left_middle_block A B =
            (if idx0 A \<noteq> 9999 \<and> idx0 B \<noteq> 9999 then left_middle_segments A B else [])) \<and>
         (\<forall>A B. right_segment A B =
            (if idx0 A \<noteq> 9999 \<and> idx0 B \<noteq> 9999 then right_segments A B else []))"
  using plot_run(7)[OF assms]
  by (simp add: overlay_polylines left_middle_block_eq right_segment_eq left_middle_segments_def
      right_segments_def)

theorem segments_gated_independently_witness:
  "returns (plot ex_names (ex_box_label (480, 640)) True True True (ex_boxes ex_near_far) None)
     (\<lambda>s. lane_landmarks s = [ABSENT, (150, 380, 500, 400), ABSENT, (250, 300, 400, 320), ABSENT] \<and>
          drawings (calls s) = [Cv_line (320, 384) (320, 475) [255, 255, 0] 2]) \<and>
   returns (plot ex_names (ex_box_label (480, 640)) True True True (ex_boxes ex_no_mid) None)
     (\<lambda>s. lane_landmarks s =
            [(100, 440, 560, 460), (150, 380, 500, 400), ABSENT, (250, 300, 400, 320),
             (290, 260, 360, 280)] \<and>
          drawings (calls s) =
            [Cv_line (100, 440) (150, 380) [127, 255, 0] 2,
             Cv_line (330, 460) (325, 400) [255, 127] 2,
             Cv_line (250, 300) (290, 260) [127, 255, 0] 2,
             Cv_line (325, 320) (325, 280) [255, 127] 2,
             Cv_line (560, 460) (500, 400) [0, 127, 255] 2,
             Cv_line (400, 320) (360, 280) [0, 127, 255] 2,
             Cv_line (320, 384) (320, 475) [255, 255, 0] 2])"
proof -
  let ?bl = "ex_box_label (480, 640)"
  let ?nf = "[ABSENT, (150, 380, 500, 400), ABSENT, (250, 300, 400, 320), ABSENT]"
  let ?nm = "[(100, 440, 560, 460), (150, 380, 500, 400), ABSENT, (250, 300, 400, 320),
             (290, 260, 360, 280)]"
  have "returns (plot ex_names ?bl True True True (ex_boxes ex_near_far) None)
          (\<lambda>s. lane_landmarks s = ?nf \<and> Final_VLA_pt s = ABSENT \<and> im s = Some (480, 640) \<and>
               Final_DCA_pt s = ABSENT)"
    and "returns (plot ex_names ?bl True True True (ex_boxes ex_no_mid) None)
          (\<lambda>s. lane_landmarks s = ?nm \<and> Final_VLA_pt s = ABSENT \<and> im s = Some (480, 640) \<and>
               Final_DCA_pt s = (100, 440, 560, 460))"
    by code_simp+
  then obtain s t where
    p: "plot ex_names ?bl True True True (ex_boxes ex_near_far) None = Inr s" and
    f: "lane_landmarks s = ?nf" "Final_VLA_pt s = ABSENT" "im s = Some (480, 640)"
      "Final_DCA_pt s = ABSENT" and
    q: "plot ex_names ?bl True True True (ex_boxes ex_no_mid) None = Inr t" and
    g: "lane_landmarks t = ?nm" "Final_VLA_pt t = ABSENT" "im t = Some (480, 640)"
      "Final_DCA_pt t = (100, 440, 560, 460)"
    by (auto dest!: returnsD)
  have e: "spec_polyline left_middle_segments ?nf = []" "spec_polyline right_segments ?nf = []"
    "spec_polyline left_middle_segments ?nm =
       [Cv_line (100, 440) (150, 380) [127, 255, 0] 2,
        Cv_line (330, 460) (325, 400) [255, 127] 2,
        Cv_line (250, 300) (290, 260) [127, 255, 0] 2,
        Cv_line (325, 320) (325, 280) [255, 127] 2]"
    "spec_polyline right_segments ?nm =
       [Cv_line (560, 460) (500, 400) [0, 127, 255] 2,
        Cv_line (400, 320) (360, 280) [0, 127, 255] 2]"
    "center_line (480, 640) = [Cv_line (320, 384) (320, 475) [255, 255, 0] 2]"
    "LDWS (480, 640) ABSENT = []" "LDWS (480, 640) (100, 440, 560, 460) = []"
    by code_simp+
  have v: "vanish_line s = []" "vanish_line t = []"
    by (simp_all add: vanish_line_eq f g idx0_ABSENT)
  have "drawings (calls s) = [Cv_line (320, 384) (320, 475) [255, 255, 0] 2]"
    using segments_gated_independently[OF p] by (simp add: f v e)
  moreover have "drawings (calls t) =
            [Cv_line (100, 440) (150, 380) [127, 255, 0] 2,
             Cv_line (330, 460) (325, 400) [255, 127] 2,
             Cv_line (250, 300) (290, 260) [127, 255, 0] 2,
             Cv_line (325, 320) (325, 280) [255, 127] 2,
             Cv_line (560, 460) (500, 400) [0, 127, 255] 2,
             Cv_line (400, 320) (360, 280) [0, 127, 255] 2,
             Cv_line (320, 384) (320, 475) [255, 255, 0] 2]"
    using segments_gated_independently[OF q] by (simp add: g v e)
  ultimately show ?thesis using p q f(1) g(1) by (simp add: returns_def)
qed

section \<open>The departure decision\<close>

lemma captions_append: "captions (xs @ ys) = captions xs @ captions ys"
  by (simp add: captions_def)

lemma captions_Nil: "captions [] = []"
  by (simp add: captions_def)

lemma captions_drawings: "captions (drawings evs) = captions evs"
proof (induction evs)
  case Nil
  show ?case by (simp add: drawings_def captions_def)
next
  case (Cons e evs)
  have "captions (drawing e) = caption e"
    by (cases e) (simp_all add: captions_def)
  with Cons show ?case
    by (simp add: drawings_def captions_def)
qed

lemma captions_lines:
  "captions (vanish_line s) = []" "captions (left_middle_block A B) = []"
  "captions (right_line s) = []" "captions (center_line shp) = []"
proof -
  show "captions (vanish_line s) = []"
    by (auto simp: vanish_line_eq captions_def)
  show "captions (left_middle_block A B) = []"
    by (auto simp: left_middle_block_eq captions_def)
  have "\<And>A B. captions (right_segment A B) = []"
    by (auto simp: right_segment_eq captions_def)
  then show "captions (right_line s) = []"
    by (simp add: right_line_def captions_append) (simp add: captions_def)
  show "captions (center_line shp) = []"
    by (cases shp) (simp add: center_line_eq captions_def)
qed

lemma captions_overlay:
  "captions (overlay s) =
     (case im s of None \<Rightarrow> [] | Some shp \<Rightarrow> captions (LDWS shp (Final_DCA_pt s)))"
  by (cases "im s")
     (simp_all add: overlay_def captions_append captions_lines vanish_point_off captions_Nil)

lemma threshold_truncation:
  assumes "0 \<le> n"
  shows "py_int (of_int n / (7 / 2)) < D \<longleftrightarrow> (of_int n / (7 / 2) :: rat) < of_int D"
proof -
  have "(0::rat) \<le> of_int n / (7 / 2)" using assms by simp
  then have "py_int (of_int n / (7 / 2)) = \<lfloor>(of_int n / (7 / 2) :: rat)\<rfloor>"
    by (simp only: py_int_def if_True)
  then show ?thesis by (simp only: floor_less_iff)
qed

lemma LDWS_pixel:
  "captions (LDWS (h, w) r) =
     (if idx0 r \<noteq> 9999 \<and> pixel_departure w (idx0 r) (idx2 r)
      then [(''DEPARTURE WARNING !'', (py_int (of_int w / 8), py_int (of_int h / 4)))]
      else [])"
proof -
  have "\<bar>py_int (of_int (idx0 r + idx2 r) / 2) - py_int (of_int w / 2)\<bar>
          > py_int (of_int \<bar>idx2 r - idx0 r\<bar> / (7 / 2))
        \<longleftrightarrow> pixel_departure w (idx0 r) (idx2 r)"
    unfolding pixel_departure_def using threshold_truncation[of "\<bar>idx2 r - idx0 r\<bar>"] by simp
  then show ?thesis
    by (simp add: LDWS_eq captions_def)
qed

text \<open>
  Claim C3, as the code has it. Both corners of \<open>p1\<close> are present exactly when the centre
  divider is resolved. When it is not, no caption is rendered. When it is, the frame has
  a height \<open>h\<close> and a width \<open>w\<close>, and the caption is rendered, at
  \<open>(int(w/8), int(h/4))\<close>, exactly when
  \<open>|int((left.x + right.x)/2) - int(w/2)| > |right.x - left.x| / 3.5\<close>: the lane centre and
  the frame centre are truncated to whole pixels before they are compared.
\<close>

theorem departure_warning_rule:
  assumes "plot names bl conf0 labels show_boxes pred_boxes hist = Inr s"
  shows "((l_p (Final_DCA_pt s) \<noteq> None \<and> r_p (Final_DCA_pt s) \<noteq> None)
            \<longleftrightarrow> idx0 (Final_DCA_pt s) \<noteq> 9999) \<and>
         (idx0 (Final_DCA_pt s) = 9999 \<longrightarrow> captions (calls s) = []) \<and>
         (idx0 (Final_DCA_pt s) \<noteq> 9999 \<longrightarrow>
            (\<exists>h w. im_shape (results_by_index s ! 0) = (h, w) \<and> im s = Some (h, w) \<and>
               captions (calls s) =
                 (if pixel_departure w (idx0 (Final_DCA_pt s)) (idx2 (Final_DCA_pt s))
                  then [(''DEPARTURE WARNING !'', (py_int (of_int w / 8), py_int (of_int h / 4)))]
                  else [])))"
proof (intro conjI impI)
  show "(l_p (Final_DCA_pt s) \<noteq> None \<and> r_p (Final_DCA_pt s) \<noteq> None)
            \<longleftrightarrow> idx0 (Final_DCA_pt s) \<noteq> 9999"
    by (simp add: l_p_def r_p_def)
  have c: "captions (calls s) = captions (overlay s)"
    using plot_run(7)[OF assms] captions_drawings[of "calls s"] by simp
  { assume a: "idx0 (Final_DCA_pt s) = 9999"
    show "captions (calls s) = []"
      by (cases "im s"; cases "the (im s)") (simp_all add: c captions_overlay LDWS_pixel a) }
  { assume a: "idx0 (Final_DCA_pt s) \<noteq> 9999"
    obtain h w where hw: "im_shape (results_by_index s ! 0) = (h, w)"
      by (cases "im_shape (results_by_index s ! 0)") simp
    have i: "im s = Some (h, w)"
      using plot_resolved_frame[OF assms, of DCA] a hw by simp
    show "\<exists>h w. im_shape (results_by_index s ! 0) = (h, w) \<and> im s = Some (h, w) \<and>
               captions (calls s) =
                 (if pixel_departure w (idx0 (Final_DCA_pt s)) (idx2 (Final_DCA_pt s))
                  then [(''DEPARTURE WARNING !'', (py_int (of_int w / 8), py_int (of_int h / 4)))]
                  else [])"
      using hw i a by (simp add: c captions_overlay LDWS_pixel) }
qed

theorem departure_warning_rule_witness:
  "returns (plot ex_names (ex_box_label (480, 640)) True True True (ex_boxes (ex_lane 200 440)) None)
     (\<lambda>s. Final_DCA_pt s = (200, 400, 440, 400) \<and> captions (calls s) = []) \<and>
   returns (plot ex_names (ex_box_label (480, 640)) True True True (ex_boxes (ex_lane 100 340)) None)
     (\<lambda>s. Final_DCA_pt s = (100, 400, 340, 400) \<and>
          captions (calls s) = [(''DEPARTURE WARNING !'', (80, 120))]) \<and>
   returns (plot ex_names (ex_box_label (480, 640)) True True True (ex_boxes ex_frame2) None)
     (\<lambda>s. Final_DCA_pt s = ABSENT \<and> captions (calls s) = [])"
proof -
  let ?bl = "ex_box_label (480, 640)"
  have "returns (plot ex_names ?bl True True True (ex_boxes (ex_lane 200 440)) None)
          (\<lambda>s. Final_DCA_pt s = (200, 400, 440, 400) \<and>
               im_shape (results_by_index s ! 0) = (480, 640))"
    and "returns (plot ex_names ?bl True True True (ex_boxes (ex_lane 100 340)) None)
          (\<lambda>s. Final_DCA_pt s = (100, 400, 340, 400) \<and>
               im_shape (results_by_index s ! 0) = (480, 640))"
    and "returns (plot ex_names ?bl True True True (ex_boxes ex_frame2) None)
          (\<lambda>s. Final_DCA_pt s = ABSENT)"
    by code_simp+
  then obtain s t u where
    p: "plot ex_names ?bl True True True (ex_boxes (ex_lane 200 440)) None = Inr s" and
    f: "Final_DCA_pt s = (200, 400, 440, 400)" "im_shape (results_by_index s ! 0) = (480, 640)" and
    q: "plot ex_names ?bl True True True (ex_boxes (ex_lane 100 340)) None = Inr t" and
    g: "Final_DCA_pt t = (100, 400, 340, 400)" "im_shape (results_by_index t ! 0) = (480, 640)" and
    r: "plot ex_names ?bl True True True (ex_boxes ex_frame2) None = Inr u" and
    k: "Final_DCA_pt u = ABSENT"
    by (auto dest!: returnsD)
  have e: "\<not> pixel_departure 640 200 440" "pixel_departure 640 100 340"
    "py_int 80 = 80" "py_int 120 = 120"
    by code_simp+
  have "captions (calls s) = []"
    using departure_warning_rule[OF p] by (simp add: f e)
  moreover have "captions (calls t) = [(''DEPARTURE WARNING !'', (80, 120))]"
    using departure_warning_rule[OF q] by (simp add: g e)
  moreover have "captions (calls u) = []"
    using departure_warning_rule[OF r] by (simp add: k idx0_ABSENT)
  ultimately show ?thesis using p q r f g k by (simp add: returns_def)
qed

text \<open>
  Claim C3 as it is stated compares the lane centre as it is. Width 304, corners
  \<open>(100, 400)\<close> and \<open>(345, 400)\<close>: the lane centre 222.5 is 70.5 away from the frame
  centre 152, more than the threshold 70, and no caption is rendered, since the truncated
  centre 222 is 70 away.
\<close>

theorem departure_half_pixel_counterexample:
  "spec_departure 304 100 345 \<and>
   returns (plot ex_names (ex_box_label (480, 304)) True True True (ex_boxes (ex_lane 100 345)) None)
     (\<lambda>s. l_p (Final_DCA_pt s) = Some (100, 400) \<and> r_p (Final_DCA_pt s) = Some (345, 400) \<and>
          im s = Some (480, 304) \<and> captions (calls s) = [])"
  by code_simp

section \<open>Absence of a landmark\<close>

lemma ADAS_Key_Points_corners:
  "ADAS_Key_Points s =
     (corners (Final_DCA_pt s), corners (Final_DUA_d_pt s), corners (Final_DUA_m_pt s),
      corners (Final_DUA_u_pt s), corners (Final_DUA_ut_pt s))"
  by (simp add: ADAS_Key_Points_def corners_def l_p_def r_p_def)

text \<open>
  Claim C7. Whether a rectangle counts as present is read off its first coordinate alone:
  a returned slot replaces the resolved rectangle exactly when its first coordinate is
  not 9999, and the corners of a resolved rectangle are key points exactly when its first
  coordinate is not 9999. A rectangle \<open>(9999, 10, 20, 30)\<close> is dropped as absent, and a
  rectangle \<open>(5, 9999, 9999, 9999)\<close> is kept as a landmark.
\<close>

theorem absence_by_first_coordinate:
  assumes "plot names bl conf0 labels show_boxes pred_boxes hist = Inr s"
  shows "(\<forall>k. resolved k s =
            foldr (\<lambda>out cur. if idx0 (slot k out) \<noteq> 9999 then slot k out else cur)
              (results_by_index s) ABSENT) \<and>
         ADAS_Key_Points s =
           (corners (Final_DCA_pt s), corners (Final_DUA_d_pt s), corners (Final_DUA_m_pt s),
            corners (Final_DUA_u_pt s), corners (Final_DUA_ut_pt s)) \<and>
         (l_p (Final_VLA_pt s), r_p (Final_VLA_pt s)) = corners (Final_VLA_pt s) \<and>
         (\<forall>a b c d. corners (a, b, c, d) = (if a \<noteq> 9999 then (Some (a, b), Some (c, d)) else (None, None)))"
proof (intro conjI allI)
  fix k
  have "(\<lambda>out cur. overwrite (slot k out) cur)
          = (\<lambda>out cur. if idx0 (slot k out) \<noteq> 9999 then slot k out else cur)"
    by (intro ext) (simp add: overwrite_def)
  then show "resolved k s =
            foldr (\<lambda>out cur. if idx0 (slot k out) \<noteq> 9999 then slot k out else cur)
              (results_by_index s) ABSENT"
    using plot_run(3)[OF assms, of k] by simp
qed (simp_all add: ADAS_Key_Points_corners corners_def l_p_def r_p_def)

theorem absence_by_first_coordinate_witness:
  "returns (plot ex_names (ex_box_label (480, 640)) True True True (ex_boxes ex_first_9999) None)
     (\<lambda>s. map DCA_pt (results_by_index s) = [(9999, 10, 20, 30)] \<and>
          Final_DCA_pt s = ABSENT \<and> corners (Final_DCA_pt s) = (None, None)) \<and>
   returns (plot ex_names (ex_box_label (480, 640)) True True True (ex_boxes ex_rest_9999) None)
     (\<lambda>s. map DCA_pt (results_by_index s) = [(5, 9999, 9999, 9999)] \<and>
          Final_DCA_pt s = (5, 9999, 9999, 9999) \<and>
          corners (Final_DCA_pt s) = (Some (5, 9999), Some (9999, 9999)))"
proof -
  let ?bl = "ex_box_label (480, 640)"
  have "returns (plot ex_names ?bl True True True (ex_boxes ex_first_9999) None)
          (\<lambda>s. map (slot DCA) (results_by_index s) = [(9999, 10, 20, 30)])"
    and "returns (plot ex_names ?bl True True True (ex_boxes ex_rest_9999) None)
          (\<lambda>s. map (slot DCA) (results_by_index s) = [(5, 9999, 9999, 9999)])"
    by code_simp+
  then obtain s t where
    p: "plot ex_names ?bl True True True (ex_boxes ex_first_9999) None = Inr s" and
    f: "map (slot DCA) (results_by_index s) = [(9999, 10, 20, 30)]" and
    q: "plot ex_names ?bl True True True (ex_boxes ex_rest_9999) None = Inr t" and
    g: "map (slot DCA) (results_by_index t) = [(5, 9999, 9999, 9999)]"
    by (auto dest!: returnsD)
  from f obtain x where x: "results_by_index s = [x]" "DCA_pt x = (9999, 10, 20, 30)"
    by auto
  from g obtain y where y: "results_by_index t = [y]" "DCA_pt y = (5, 9999, 9999, 9999)"
    by auto
  have "Final_DCA_pt s = ABSENT"
    using absence_by_first_coordinate[OF p, THEN conjunct1, rule_format, of DCA]
    by (simp add: x)
  moreover have "Final_DCA_pt t = (5, 9999, 9999, 9999)"
    using absence_by_first_coordinate[OF q, THEN conjunct1, rule_format, of DCA]
    by (simp add: y)
  ultimately show ?thesis
    using p q f g by (simp add: returns_def corners_def idx0_ABSENT)
qed

end
